theory Spec2Isabelle
  imports Main "HOL-Library.Multiset"
begin

section \<open>Data model of \<^verbatim>\<open>src/services/player.ts\<close>\<close>

text \<open>
  The playback engine of one guild: a queue of songs with a cursor, a transport status, the
  handle of the audio player, an elapsed-seconds counter and the idle-disconnect timer.
  JavaScript numbers are modelled as \<open>int\<close> (every number the engine computes with is a
  count of songs or of seconds), \<open>null\<close> and \<open>undefined\<close> as \<open>None\<close>.
\<close>

datatype MediaSource = Youtube | HLS

record QueuedPlaylist =
  playlist_title :: string
  playlist_source :: string

text \<open>\<^verbatim>\<open>QueuedSong\<close> (which extends \<^verbatim>\<open>SongMetadata\<close>). The field \<^verbatim>\<open>length\<close> is
  \<open>length_song\<close> here, since \<open>length\<close> is the length of a list.\<close>

record QueuedSong =
  title :: string
  artist :: string
  url :: string
  length_song :: int
  offset :: int
  playlist :: "QueuedPlaylist option"
  isLive :: bool
  thumbnailUrl :: "string option"
  source :: MediaSource
  addedInChannelId :: string
  requestedBy :: string

datatype STATUS = PLAYING | PAUSED | IDLE

text \<open>Every \<^verbatim>\<open>throw\<close> of the file is one constructor; the comment gives the message of the
  \<^verbatim>\<open>Error\<close>. \<open>FetchFailure c\<close> is a rejection of \<^verbatim>\<open>ytdl.getInfo\<close>, \<open>c\<close> its
  \<^verbatim>\<open>statusCode\<close> property when it has one; \<open>TypeError\<close> is the one the runtime throws when a
  property of \<^verbatim>\<open>undefined\<close> is read.\<close>

datatype error =
    NotConnected      \<comment> \<open>Not connected to a voice channel.\<close>
  | QueueEmpty        \<comment> \<open>Queue empty.\<close>
  | NoSongPlaying     \<comment> \<open>No song currently playing\<close>
  | SeekOutOfRange    \<comment> \<open>Seek position is outside the range of the song.\<close>
  | NotPlaying        \<comment> \<open>Not currently playing.\<close>
  | NoMoreTracks      \<comment> \<open>No songs in queue to forward to.\<close>
  | NoPreviousTrack   \<comment> \<open>No songs in queue to go back to.\<close>
  | MoveOutOfRange    \<comment> \<open>Move index is outside the range of the queue.\<close>
  | NoSuitableFormat  \<comment> \<open>Can't find suitable format.\<close>
  | SettingsNotFound  \<comment> \<open>Could not find settings for guild\<close>
  | TypeError
  | FetchFailure "int option"

text \<open>What \<^verbatim>\<open>createReadStream\<close> is called with: the input handed to ffmpeg, its input
  options, and the cache key the output is also written to (when \<^verbatim>\<open>options.cache\<close>).
  An option is a literal word or the decimal rendering \<^verbatim>\<open>n.toString()\<close> of a number.\<close>

datatype ffmpeg_arg = Lit string | NumStr int

record stream =
  ffmpegInput :: string
  ffmpegInputOptions :: "ffmpeg_arg list"
  cacheKey :: "string option"

text \<open>The \<^verbatim>\<open>AudioPlayer\<close> of the voice library, as far as the engine drives it: the resource
  it was given and whether it plays, is paused, or was stopped.\<close>

datatype AudioPlayerStatus = AP_Playing | AP_Paused | AP_Idle

record AudioPlayer =
  ap_status :: AudioPlayerStatus
  ap_resource :: stream

text \<open>The fields of the class. A queue slot is \<open>Some song\<close>, or \<open>None\<close> for the
  \<^verbatim>\<open>undefined\<close> that \<^verbatim>\<open>move\<close> can splice in. \<open>voiceConnection\<close> holds the id of the joined
  channel. \<open>playPositionInterval\<close> tells whether the one-second tick is running.
  \<open>timers\<close> is the runtime's table of timeouts created by the engine, each with its delay in
  milliseconds and whether it is still pending; \<open>disconnectTimer\<close> is the handle (the index
  in that table) last stored by \<^verbatim>\<open>forward\<close>.\<close>

record engine =
  voiceConnection :: "string option"
  status :: STATUS
  guildId :: string
  loopCurrentSong :: bool
  queue :: "QueuedSong option list"
  queuePosition :: int
  audioPlayer :: "AudioPlayer option"
  nowPlaying :: "QueuedSong option"
  playPositionInterval :: bool
  lastSongURL :: string
  positionInSeconds :: int
  disconnectTimer :: "nat option"
  timers :: "(int \<times> bool) list"

text \<open>The constructor: the field initialisers of the class.\<close>

definition new_engine :: "string \<Rightarrow> engine" where
  "new_engine g =
     \<lparr>voiceConnection = None, status = PAUSED, guildId = g, loopCurrentSong = False,
      queue = [], queuePosition = 0, audioPlayer = None, nowPlaying = None,
      playPositionInterval = False, lastSongURL = [], positionInSeconds = 0,
      disconnectTimer = None, timers = []\<rparr>"

section \<open>Arrays of the runtime\<close>

text \<open>\<^verbatim>\<open>Array.prototype.slice\<close> and \<^verbatim>\<open>splice\<close> clamp their arguments: a negative start
  counts from the end, a start beyond the end is the end, and a delete count is cut to
  what is there.\<close>

definition js_rel :: "'a list \<Rightarrow> int \<Rightarrow> nat" where
  "js_rel xs i =
     (if i < 0 then nat (max (int (length xs) + i) 0) else min (nat i) (length xs))"

definition js_slice_from :: "'a list \<Rightarrow> int \<Rightarrow> 'a list" where
  "js_slice_from xs start = drop (js_rel xs start) xs"

definition js_slice :: "'a list \<Rightarrow> int \<Rightarrow> int \<Rightarrow> 'a list" where
  "js_slice xs start end = take (js_rel xs end - js_rel xs start) (drop (js_rel xs start) xs)"

text \<open>\<open>js_splice xs start n items\<close> is the pair of the removed elements and the array
  after \<^verbatim>\<open>xs.splice(start, n, ...items)\<close>.\<close>

definition js_splice :: "'a list \<Rightarrow> int \<Rightarrow> int \<Rightarrow> 'a list \<Rightarrow> 'a list \<times> 'a list" where
  "js_splice xs start n items =
     (let k = js_rel xs start;
          d = min (nat (max n 0)) (length xs - k)
      in (take d (drop k xs), take k xs @ items @ drop (k + d) xs))"

section \<open>Queue and cursor\<close>

text \<open>\<^verbatim>\<open>this.queue[this.queuePosition]\<close> is \<^verbatim>\<open>undefined\<close> outside the array, and
  \<^verbatim>\<open>getCurrent\<close> returns \<^verbatim>\<open>null\<close> for it.\<close>

definition js_index :: "'a option list \<Rightarrow> int \<Rightarrow> 'a option" where
  "js_index xs i = (if 0 \<le> i \<and> i < int (length xs) then xs ! nat i else None)"

definition getCurrent :: "engine \<Rightarrow> QueuedSong option" where
  "getCurrent s = js_index (queue s) (queuePosition s)"

definition getQueue :: "engine \<Rightarrow> QueuedSong option list" where
  "getQueue s = js_slice_from (queue s) (queuePosition s + 1)"

definition queueSize :: "engine \<Rightarrow> int" where
  "queueSize s = int (length (getQueue s))"

definition isQueueEmpty :: "engine \<Rightarrow> bool" where
  "isQueueEmpty s = (queueSize s = 0)"

definition stopTrackingPosition :: "engine \<Rightarrow> engine" where
  "stopTrackingPosition s = s\<lparr>playPositionInterval := False\<rparr>"

definition startTrackingPosition :: "int option \<Rightarrow> engine \<Rightarrow> engine" where
  "startTrackingPosition initalPosition s =
     (case initalPosition of
        None \<Rightarrow> s\<lparr>playPositionInterval := True\<rparr>
      | Some p \<Rightarrow> s\<lparr>positionInSeconds := p, playPositionInterval := True\<rparr>)"

definition canGoForward :: "engine \<Rightarrow> int \<Rightarrow> bool" where
  "canGoForward s skip = (queuePosition s + skip - 1 < int (length (queue s)))"

definition manualForward :: "int \<Rightarrow> engine \<Rightarrow> error + engine" where
  "manualForward skip s =
     (if canGoForward s skip
      then Inr (stopTrackingPosition
                 (s\<lparr>queuePosition := queuePosition s + skip, positionInSeconds := 0\<rparr>))
      else Inl NoMoreTracks)"

definition canGoBack :: "engine \<Rightarrow> bool" where
  "canGoBack s = (queuePosition s - 1 \<ge> 0)"

section \<open>The collaborators\<close>

text \<open>A candidate of \<^verbatim>\<open>ytdl.getInfo\<close> (\<^verbatim>\<open>ytdl.videoFormat\<close>), with the fields the engine
  reads. \<^verbatim>\<open>audioBitrate\<close> is a number, as the cast in the comparator says it is.\<close>

record videoFormat =
  codecs :: string
  container :: string
  audioSampleRate :: "string option"
  format_isLive :: bool
  audioBitrate :: int
  itag :: int
  averageBitrate :: "int option"
  bitrate :: "int option"
  format_url :: string

text \<open>The answer of \<^verbatim>\<open>ytdl.getInfo\<close>: \<open>isLiveContent\<close> is
  \<^verbatim>\<open>info.player_response.videoDetails.isLiveContent\<close>, \<open>lengthSeconds\<close> is
  \<^verbatim>\<open>info.videoDetails.lengthSeconds\<close>.\<close>

record videoInfo =
  formats :: "videoFormat list"
  isLiveContent :: bool
  lengthSeconds :: string

text \<open>What the engine asks of the outside at one moment: the hash of the cache key, the
  file cache (\<open>None\<close> when \<^verbatim>\<open>getPathFor\<close> rejects), the resolver (\<open>Inl c\<close> when
  \<^verbatim>\<open>getInfo\<close> rejects, \<open>c\<close> the \<^verbatim>\<open>statusCode\<close> of the error if it has one) and the
  settings table (\<^verbatim>\<open>secondsToWaitAfterQueueEmpties\<close> of the guild's row, \<open>None\<close> when
  \<^verbatim>\<open>findUnique\<close> returns \<^verbatim>\<open>null\<close>), and the random permutation drawn by the
  \<^verbatim>\<open>array-shuffle\<close> package. The operations take a sequence of such worlds and the
  index of the next one to ask, so that the outside may answer differently each time.\<close>

record world =
  hasha :: "string \<Rightarrow> string"
  getPathFor :: "string \<Rightarrow> string option"
  getInfo :: "string \<Rightarrow> int option + videoInfo"
  findSettings :: "string \<Rightarrow> int option"
  arrayShuffle :: "QueuedSong option list \<Rightarrow> QueuedSong option list"

section \<open>The stream pipeline\<close>

text \<open>\<^verbatim>\<open>parseInt(s, 10)\<close>: leading white space is skipped, one sign is read, then the
  longest run of decimal digits; \<open>None\<close> is \<^verbatim>\<open>NaN\<close>.\<close>

definition is_space :: "char \<Rightarrow> bool" where
  "is_space c = (of_char c \<in> {9, 10, 11, 12, 13, 32 :: nat})"

definition is_digit :: "char \<Rightarrow> bool" where
  "is_digit c = (48 \<le> (of_char c :: nat) \<and> (of_char c :: nat) \<le> 57)"

definition digits_value :: "string \<Rightarrow> int" where
  "digits_value ds = foldl (\<lambda>a c. 10 * a + (int (of_char c) - 48)) 0 ds"

definition parseInt :: "string \<Rightarrow> int option" where
  "parseInt str =
     (let s = dropWhile is_space str;
          neg = (case s of [] \<Rightarrow> False | c # _ \<Rightarrow> c = CHR ''-'');
          r = (case s of [] \<Rightarrow> [] | c # cs \<Rightarrow> if c = CHR ''-'' \<or> c = CHR ''+'' then cs else s);
          ds = takeWhile is_digit r
      in if ds = [] then None
         else Some (if neg then - digits_value ds else digits_value ds))"

text \<open>A number that may be \<^verbatim>\<open>undefined\<close>, used as a condition.\<close>

definition truthy :: "int option \<Rightarrow> bool" where
  "truthy v = (case v of None \<Rightarrow> False | Some n \<Rightarrow> n \<noteq> 0)"

text \<open>\<^verbatim>\<open>if (options.seek) ffmpegInputOptions.push('-ss', options.seek.toString())\<close>, and the
  same for \<^verbatim>\<open>-to\<close>.\<close>

definition trimOption :: "string \<Rightarrow> int option \<Rightarrow> ffmpeg_arg list" where
  "trimOption flag v =
     (case v of None \<Rightarrow> [] | Some n \<Rightarrow> if n = 0 then [] else [Lit flag, NumStr n])"

definition createReadStream :: "world \<Rightarrow> string \<Rightarrow> ffmpeg_arg list option \<Rightarrow> bool \<Rightarrow> stream" where
  "createReadStream w u opts cache =
     \<lparr>ffmpegInput = u,
      ffmpegInputOptions = (case opts of None \<Rightarrow> [Lit ''-re''] | Some os \<Rightarrow> os),
      cacheKey = (if cache then Some (hasha w u) else None)\<rparr>"

text \<open>The arrow function \<^verbatim>\<open>filter\<close> of \<^verbatim>\<open>getStream\<close>.\<close>

definition exactFormat :: "videoFormat \<Rightarrow> bool" where
  "exactFormat f =
     (codecs f = ''opus'' \<and> container f = ''webm'' \<and>
      (case audioSampleRate f of None \<Rightarrow> False | Some r \<Rightarrow> parseInt r = Some 48000))"

definition liveItags :: "int list" where
  "liveItags = [128, 127, 120, 96, 95, 94, 93]"

text \<open>\<^verbatim>\<open>Array.prototype.sort\<close> is stable, and so is \<open>sort_key\<close>; the comparator
  \<^verbatim>\<open>(a, b) => b.k - a.k\<close> orders by descending \<open>k\<close>.\<close>

definition sortDescending :: "('a \<Rightarrow> int) \<Rightarrow> 'a list \<Rightarrow> 'a list" where
  "sortDescending k xs = sort_key (\<lambda>x. - k x) xs"

text \<open>\<^verbatim>\<open>nextBestFormat\<close>. Reading \<^verbatim>\<open>formats[0].isLive\<close> of an empty array throws.\<close>

definition nextBestFormat :: "videoFormat list \<Rightarrow> error + videoFormat option" where
  "nextBestFormat fs =
     (case fs of
        [] \<Rightarrow> Inl TypeError
      | f0 # _ \<Rightarrow>
          if format_isLive f0
          then Inr (find (\<lambda>f. itag f \<in> set liveItags) (sortDescending audioBitrate fs))
          else
            let fs' = sortDescending (\<lambda>f. case averageBitrate f of Some b \<Rightarrow> b | None \<Rightarrow> 0)
                        (filter (\<lambda>f. truthy (averageBitrate f)) fs)
            in Inr (case find (\<lambda>f. \<not> truthy (bitrate f)) fs' of
                      Some f \<Rightarrow> Some f
                    | None \<Rightarrow> (case fs' of [] \<Rightarrow> None | f # _ \<Rightarrow> Some f)))"

text \<open>The format chosen in the \<^verbatim>\<open>catch\<close> branch of \<^verbatim>\<open>getStream\<close> (the cache miss).\<close>

definition chooseFormat :: "videoFormat list \<Rightarrow> error + videoFormat" where
  "chooseFormat fs =
     (case find exactFormat fs of
        Some f \<Rightarrow> Inr f
      | None \<Rightarrow>
          (case nextBestFormat fs of
             Inl e \<Rightarrow> Inl e
           | Inr None \<Rightarrow> Inl NoSuitableFormat
           | Inr (Some f) \<Rightarrow> Inr f))"

definition MAX_CACHE_LENGTH_SECONDS :: int where
  "MAX_CACHE_LENGTH_SECONDS = 30 * 60"

definition reconnectOptions :: "ffmpeg_arg list" where
  "reconnectOptions =
     [Lit ''-reconnect'', Lit ''1'', Lit ''-reconnect_streamed'', Lit ''1'',
      Lit ''-reconnect_delay_max'', Lit ''5'']"

definition getStream :: "world \<Rightarrow> QueuedSong \<Rightarrow> int option \<Rightarrow> int option \<Rightarrow> error + stream" where
  "getStream w song seek to =
     (if source song = HLS then Inr (createReadStream w (url song) None False)
      else
        case getPathFor w (hasha w (url song)) of
          Some path \<Rightarrow>
            Inr (createReadStream w path
                   (Some (trimOption ''-ss'' seek @ trimOption ''-to'' to)) False)
        | None \<Rightarrow>
            (case getInfo w (url song) of
               Inl c \<Rightarrow> Inl (FetchFailure c)
             | Inr info \<Rightarrow>
                 (case chooseFormat (formats info) of
                    Inl e \<Rightarrow> Inl e
                  | Inr format \<Rightarrow>
                      let shouldCacheVideo =
                            (\<not> isLiveContent info \<and>
                             (case parseInt (lengthSeconds info) of
                                None \<Rightarrow> False
                              | Some n \<Rightarrow> n < MAX_CACHE_LENGTH_SECONDS) \<and>
                             \<not> truthy seek \<and> \<not> truthy to)
                      in Inr (createReadStream w (format_url format)
                                (Some (reconnectOptions @ trimOption ''-ss'' seek
                                       @ trimOption ''-to'' to))
                                shouldCacheVideo))))"

section \<open>Transport\<close>

definition ap_pause :: "AudioPlayer \<Rightarrow> AudioPlayer" where
  "ap_pause p = (if ap_status p = AP_Playing then p\<lparr>ap_status := AP_Paused\<rparr> else p)"

definition ap_unpause :: "AudioPlayer \<Rightarrow> AudioPlayer" where
  "ap_unpause p = (if ap_status p = AP_Paused then p\<lparr>ap_status := AP_Playing\<rparr> else p)"

definition ap_stop :: "AudioPlayer \<Rightarrow> AudioPlayer" where
  "ap_stop p = p\<lparr>ap_status := AP_Idle\<rparr>"

text \<open>\<^verbatim>\<open>createAudioPlayer\<close>, \<^verbatim>\<open>subscribe\<close> and \<^verbatim>\<open>play(createAudioResource(stream))\<close>.\<close>

definition newAudioPlayer :: "stream \<Rightarrow> AudioPlayer" where
  "newAudioPlayer st = \<lparr>ap_status = AP_Playing, ap_resource = st\<rparr>"

definition clearTimer :: "nat \<Rightarrow> (int \<times> bool) list \<Rightarrow> (int \<times> bool) list" where
  "clearTimer h ts = (if h < length ts then ts[h := (fst (ts ! h), False)] else ts)"

text \<open>The block of \<^verbatim>\<open>play\<close> under "Cancel any pending idle disconnection".\<close>

definition cancelDisconnect :: "engine \<Rightarrow> engine" where
  "cancelDisconnect s =
     (case disconnectTimer s of
        None \<Rightarrow> s
      | Some h \<Rightarrow> s\<lparr>disconnectTimer := None, timers := clearTimer h (timers s)\<rparr>)"

text \<open>An operation returns the error it throws, or its value, together with the fields as
  it leaves them.\<close>

type_synonym 'a outcome = "(error + 'a) \<times> engine"

definition pause :: "engine \<Rightarrow> unit outcome" where
  "pause s =
     (if status s \<noteq> PLAYING then (Inl NotPlaying, s)
      else (Inr (),
            stopTrackingPosition
              (s\<lparr>status := PAUSED, audioPlayer := map_option ap_pause (audioPlayer s)\<rparr>)))"

text \<open>\<^verbatim>\<open>connect\<close> and \<^verbatim>\<open>disconnect\<close>. The player that \<^verbatim>\<open>disconnect\<close> stops is dropped with
  the field.\<close>

definition connect :: "string \<Rightarrow> engine \<Rightarrow> engine" where
  "connect channel s = s\<lparr>voiceConnection := Some channel\<rparr>"

definition disconnect :: "engine \<Rightarrow> engine" where
  "disconnect s =
     (case voiceConnection s of
        None \<Rightarrow> s
      | Some _ \<Rightarrow>
          (let s1 = (if status s = PLAYING then snd (pause s) else s)
           in s1\<lparr>loopCurrentSong := False, voiceConnection := None, audioPlayer := None\<rparr>))"

text \<open>\<^verbatim>\<open>seek\<close>. A \<^verbatim>\<open>QueuedSong\<close> always has its \<^verbatim>\<open>offset\<close> (the field is a \<^verbatim>\<open>number\<close>), so the
  test \<^verbatim>\<open>currentSong.offset !== undefined\<close> holds here and in \<^verbatim>\<open>play\<close>, and both bounds are
  passed to \<^verbatim>\<open>getStream\<close>. The listeners that \<^verbatim>\<open>attachListeners\<close> registers are the events
  below.\<close>

definition seek :: "(nat \<Rightarrow> world) \<Rightarrow> nat \<Rightarrow> int \<Rightarrow> engine \<Rightarrow> unit outcome" where
  "seek env n positionSeconds s0 =
     (let s = s0\<lparr>status := PAUSED\<rparr>
      in if voiceConnection s = None then (Inl NotConnected, s)
         else
           case getCurrent s of
             None \<Rightarrow> (Inl NoSongPlaying, s)
           | Some currentSong \<Rightarrow>
               if positionSeconds > length_song currentSong then (Inl SeekOutOfRange, s)
               else
                 (case getStream (env n) currentSong
                         (Some (positionSeconds + offset currentSong))
                         (Some (length_song currentSong + offset currentSong)) of
                    Inl e \<Rightarrow> (Inl e, s)
                  | Inr st \<Rightarrow>
                      (Inr (),
                       (startTrackingPosition (Some positionSeconds)
                          (s\<lparr>audioPlayer := Some (newAudioPlayer st)\<rparr>))\<lparr>status := PLAYING\<rparr>)))"

definition getPosition :: "engine \<Rightarrow> int" where
  "getPosition s = positionInSeconds s"

definition forwardSeek :: "(nat \<Rightarrow> world) \<Rightarrow> nat \<Rightarrow> int \<Rightarrow> engine \<Rightarrow> unit outcome" where
  "forwardSeek env n positionSeconds s = seek env n (positionInSeconds s + positionSeconds) s"

text \<open>\<^verbatim>\<open>setTimeout\<close> of the disconnect callback: a new pending entry, whose index is the
  handle. The runtime keeps the delay it is given only between 1 and \<open>2^31 - 1\<close>
  milliseconds; a delay above or below is set to 1.\<close>

definition TIMEOUT_MAX :: int where
  "TIMEOUT_MAX = 2147483647"

definition timeoutDelay :: "int \<Rightarrow> int" where
  "timeoutDelay ms = (if ms > TIMEOUT_MAX \<or> ms < 1 then 1 else ms)"

definition armDisconnect :: "int \<Rightarrow> engine \<Rightarrow> engine" where
  "armDisconnect ms s =
     s\<lparr>disconnectTimer := Some (length (timers s)),
       timers := timers s @ [(timeoutDelay ms, True)]\<rparr>"

text \<open>What \<^verbatim>\<open>play\<close> does once the stream is there.\<close>

definition started :: "QueuedSong \<Rightarrow> stream \<Rightarrow> engine \<Rightarrow> engine" where
  "started currentSong st s =
     (let s1 = s\<lparr>audioPlayer := Some (newAudioPlayer st), status := PLAYING,
                 nowPlaying := Some currentSong\<rparr>
      in if url currentSong = lastSongURL s1 then startTrackingPosition None s1
         else (startTrackingPosition (Some 0) s1)\<lparr>lastSongURL := url currentSong\<rparr>)"

text \<open>\<^verbatim>\<open>play\<close> and \<^verbatim>\<open>forward\<close> call each other: \<^verbatim>\<open>play\<close> skips a song whose stream cannot
  be fetched, \<^verbatim>\<open>forward\<close> plays the song it arrives at.\<close>

function play :: "(nat \<Rightarrow> world) \<Rightarrow> nat \<Rightarrow> engine \<Rightarrow> unit outcome"
  and forward :: "(nat \<Rightarrow> world) \<Rightarrow> nat \<Rightarrow> int \<Rightarrow> engine \<Rightarrow> unit outcome" where
  "play env n s0 =
     (if voiceConnection s0 = None then (Inl NotConnected, s0)
      else
        case getCurrent s0 of
          None \<Rightarrow> (Inl QueueEmpty, s0)
        | Some currentSong \<Rightarrow>
            (let s = cancelDisconnect s0;
                 resume = (status s = PAUSED \<and>
                           Some (url currentSong) = map_option url (nowPlaying s))
             in if resume \<and> audioPlayer s \<noteq> None
                then (Inr (),
                      startTrackingPosition None
                        (s\<lparr>audioPlayer := map_option ap_unpause (audioPlayer s),
                           status := PLAYING\<rparr>))
                else if resume \<and> \<not> isLive currentSong then seek env n (getPosition s) s
                else
                  (case getStream (env n) currentSong (Some (offset currentSong))
                          (Some (length_song currentSong + offset currentSong)) of
                     Inr st \<Rightarrow> (Inr (), started currentSong st s)
                   | Inl e \<Rightarrow>
                       (case forward env (Suc n) 1 s of
                          (Inl e', s') \<Rightarrow> (Inl e', s')
                        | (Inr _, s') \<Rightarrow>
                            if e = FetchFailure (Some 410) \<and> addedInChannelId currentSong \<noteq> []
                            then (Inr (), s')
                            else (Inl e, s')))))"
| "forward env n skip s0 =
     (case manualForward skip s0 of
        Inl e \<Rightarrow> (Inl e, s0)
      | Inr s \<Rightarrow>
          if getCurrent s \<noteq> None \<and> status s \<noteq> PAUSED
          then (case play env n s of
                  (Inr u, s') \<Rightarrow> (Inr u, s')
                | (Inl e, s') \<Rightarrow> (Inl e, s'\<lparr>queuePosition := queuePosition s' - 1\<rparr>))
          else
            (let s1 = s\<lparr>audioPlayer := map_option ap_stop (audioPlayer s), status := IDLE\<rparr>
             in case findSettings (env n) (guildId s1) of
                  None \<Rightarrow> (Inl SettingsNotFound, s1\<lparr>queuePosition := queuePosition s1 - 1\<rparr>)
                | Some secondsToWaitAfterQueueEmpties \<Rightarrow>
                    if secondsToWaitAfterQueueEmpties \<noteq> 0
                    then (Inr (), armDisconnect (secondsToWaitAfterQueueEmpties * 1000) s1)
                    else (Inr (), s1)))"
  by pat_completeness auto
termination
  by (relation "measure (\<lambda>x. case x of
        Inl (env, n, s) \<Rightarrow> 2 * nat (int (length (queue s)) - queuePosition s)
      | Inr (env, n, skip, s) \<Rightarrow>
          2 * nat (int (length (queue s)) - (queuePosition s + skip)) + 1)")
     (auto simp: getCurrent_def js_index_def manualForward_def stopTrackingPosition_def
        cancelDisconnect_def split: if_splits option.splits)

declare play.simps [simp del] forward.simps [simp del]

definition back_song :: "(nat \<Rightarrow> world) \<Rightarrow> nat \<Rightarrow> engine \<Rightarrow> unit outcome" where
  "back_song env n s0 =
     (if canGoBack s0
      then
        (let s = stopTrackingPosition
                   (s0\<lparr>queuePosition := queuePosition s0 - 1, positionInSeconds := 0\<rparr>)
         in if status s \<noteq> PAUSED then play env n s else (Inr (), s))
      else (Inl NoPreviousTrack, s0))"

section \<open>Queue mutators\<close>

definition add :: "QueuedSong \<Rightarrow> bool \<Rightarrow> engine \<Rightarrow> engine" where
  "add song immediate s =
     (if playlist song \<noteq> None \<or> \<not> immediate
      then s\<lparr>queue := queue s @ [Some song]\<rparr>
      else
        let insertAt = queuePosition s + 1
        in s\<lparr>queue := js_slice (queue s) 0 insertAt @ [Some song]
                        @ js_slice_from (queue s) insertAt\<rparr>)"

definition shuffle :: "world \<Rightarrow> engine \<Rightarrow> engine" where
  "shuffle w s =
     (let shuffledSongs = arrayShuffle w (js_slice_from (queue s) (queuePosition s + 1))
      in s\<lparr>queue := js_slice (queue s) 0 (queuePosition s + 1) @ shuffledSongs\<rparr>)"

definition clear :: "engine \<Rightarrow> engine" where
  "clear s =
     (let newQueue = (case getCurrent s of None \<Rightarrow> [] | Some current \<Rightarrow> [Some current])
      in s\<lparr>queuePosition := 0, queue := newQueue\<rparr>)"

definition removeFromQueue :: "int \<Rightarrow> int \<Rightarrow> engine \<Rightarrow> engine" where
  "removeFromQueue index amount s =
     s\<lparr>queue := snd (js_splice (queue s) (queuePosition s + index) amount [])\<rparr>"

definition removeCurrent :: "engine \<Rightarrow> engine" where
  "removeCurrent s =
     s\<lparr>queue := js_slice (queue s) 0 (queuePosition s)
                  @ js_slice_from (queue s) (queuePosition s + 1)\<rparr>"

definition stop :: "engine \<Rightarrow> engine" where
  "stop s = (disconnect s)\<lparr>queuePosition := 0, queue := []\<rparr>"

text \<open>\<^verbatim>\<open>move\<close>: the inner \<^verbatim>\<open>splice\<close> runs first; element 0 of what it removed is
  \<^verbatim>\<open>undefined\<close> when it removed nothing.\<close>

definition move :: "int \<Rightarrow> int \<Rightarrow> engine \<Rightarrow> (QueuedSong option) outcome" where
  "move from to s =
     (if from > queueSize s \<or> to > queueSize s then (Inl MoveOutOfRange, s)
      else
        let (removed, q1) = js_splice (queue s) (queuePosition s + from) 1 [];
            item = (case removed of [] \<Rightarrow> None | x # _ \<Rightarrow> x);
            q2 = snd (js_splice q1 (queuePosition s + to) 0 [item])
        in (Inr (js_index q2 (queuePosition s + to)), s\<lparr>queue := q2\<rparr>))"

section \<open>Events\<close>

text \<open>The listener on the audio player; \<open>newIdle\<close> is
  \<^verbatim>\<open>newState.status === AudioPlayerStatus.Idle\<close>.\<close>

definition onAudioPlayerIdle :: "(nat \<Rightarrow> world) \<Rightarrow> nat \<Rightarrow> bool \<Rightarrow> engine \<Rightarrow> unit outcome" where
  "onAudioPlayerIdle env n newIdle s =
     (if loopCurrentSong s \<and> newIdle \<and> status s = PLAYING then seek env n 0 s
      else if newIdle \<and> status s = PLAYING then forward env n 1 s
      else (Inr (), s))"

definition onVoiceConnectionDisconnect :: "engine \<Rightarrow> engine" where
  "onVoiceConnectionDisconnect s = disconnect s"

text \<open>The callback given to \<^verbatim>\<open>setTimeout\<close> in \<^verbatim>\<open>forward\<close>, and the runtime firing the
  timeout with handle \<open>h\<close>, which it does only while that timeout is pending.\<close>

definition disconnectCallback :: "engine \<Rightarrow> engine" where
  "disconnectCallback s = (if status s = IDLE then disconnect s else s)"

definition timerFires :: "nat \<Rightarrow> engine \<Rightarrow> engine" where
  "timerFires h s =
     (if h < length (timers s) \<and> snd (timers s ! h)
      then disconnectCallback (s\<lparr>timers := clearTimer h (timers s)\<rparr>)
      else s)"

text \<open>The callback of \<^verbatim>\<open>setInterval\<close> in \<^verbatim>\<open>startTrackingPosition\<close>.\<close>

definition tick :: "engine \<Rightarrow> engine" where
  "tick s =
     (if playPositionInterval s then s\<lparr>positionInSeconds := positionInSeconds s + 1\<rparr> else s)"

section \<open>Sequences of calls\<close>

text \<open>The public methods and the three callbacks, as one type, so that a history of an
  engine is a list of calls. Each call comes with the index of the world it starts in.\<close>

datatype call =
    Connect string
  | Disconnect
  | Play
  | Pause
  | Seek int
  | ForwardSeek int
  | Forward int
  | Back
  | Add QueuedSong bool
  | Shuffle
  | Clear
  | RemoveFromQueue int int
  | RemoveCurrent
  | Stop
  | Move int int
  | AudioPlayerIdle bool
  | VoiceDisconnected
  | TimerFires nat
  | Tick

text \<open>The fields after a call, whether it returned or threw.\<close>

fun run :: "(nat \<Rightarrow> world) \<Rightarrow> nat \<Rightarrow> call \<Rightarrow> engine \<Rightarrow> engine" where
  "run env n (Connect c) s = connect c s"
| "run env n Disconnect s = disconnect s"
| "run env n Play s = snd (play env n s)"
| "run env n Pause s = snd (pause s)"
| "run env n (Seek p) s = snd (seek env n p s)"
| "run env n (ForwardSeek p) s = snd (forwardSeek env n p s)"
| "run env n (Forward k) s = snd (forward env n k s)"
| "run env n Back s = snd (back_song env n s)"
| "run env n (Add song immediate) s = add song immediate s"
| "run env n Shuffle s = shuffle (env n) s"
| "run env n Clear s = clear s"
| "run env n (RemoveFromQueue i a) s = removeFromQueue i a s"
| "run env n RemoveCurrent s = removeCurrent s"
| "run env n Stop s = stop s"
| "run env n (Move i j) s = snd (move i j s)"
| "run env n (AudioPlayerIdle b) s = snd (onAudioPlayerIdle env n b s)"
| "run env n VoiceDisconnected s = onVoiceConnectionDisconnect s"
| "run env n (TimerFires h) s = timerFires h s"
| "run env n Tick s = tick s"

fun run_all :: "(nat \<Rightarrow> world) \<Rightarrow> (nat \<times> call) list \<Rightarrow> engine \<Rightarrow> engine" where
  "run_all env [] s = s"
| "run_all env ((n, c) # cs) s = run_all env cs (run env n c s)"

text \<open>The invariant of the queue.\<close>

definition cursor_in_range :: "engine \<Rightarrow> bool" where
  "cursor_in_range s = (0 \<le> queuePosition s \<and> queuePosition s \<le> int (length (queue s)))"

text \<open>Calls whose arguments count forwards: a skip of at least one song, a removal at or
  after the cursor.\<close>

fun counts_forwards :: "call \<Rightarrow> bool" where
  "counts_forwards (Forward k) = (1 \<le> k)"
| "counts_forwards (RemoveFromQueue i a) = (0 \<le> i)"
| "counts_forwards _ = True"


section \<open>The claims' own readings\<close>

text \<open>The removal as the specification words it (\<^verbatim>\<open>removeAt(offsetFromNext, count)\<close>):
  \<open>cnt\<close> tracks starting at queue index \<open>cursor + 1 + offsetFromNext\<close>. It is here to be
  compared with \<open>removeFromQueue\<close>.\<close>

definition removeAt_claimed :: "int \<Rightarrow> int \<Rightarrow> engine \<Rightarrow> engine" where
  "removeAt_claimed offsetFromNext cnt s =
     s\<lparr>queue := take (nat (queuePosition s + 1 + offsetFromNext)) (queue s)
                  @ drop (nat (queuePosition s + 1 + offsetFromNext + cnt)) (queue s)\<rparr>"

text \<open>The selection as the specification words it, to be compared with \<open>chooseFormat\<close>:
  first any candidate already in the opus/webm/48000 triple; else, for live content, the
  candidates by descending bitrate and the first whose tag is in the preferred list; else
  the candidates with a known average bitrate by descending average bitrate and the first
  without a peak-bitrate tag, or failing that the first of them; else NoSuitableFormat.
  \<open>live\<close> is left to the caller. "Known" and "lacking" are read as the code reads a
  number that may be missing: \<^verbatim>\<open>undefined\<close> and 0 both count as missing.\<close>

definition selectFormat_claimed :: "bool \<Rightarrow> videoFormat list \<Rightarrow> error + videoFormat" where
  "selectFormat_claimed live cands =
     (case filter exactFormat cands of
        f # _ \<Rightarrow> Inr f
      | [] \<Rightarrow>
          if live
          then (case filter (\<lambda>f. itag f \<in> set liveItags) (sortDescending audioBitrate cands) of
                  f # _ \<Rightarrow> Inr f
                | [] \<Rightarrow> Inl NoSuitableFormat)
          else
            (let known = sortDescending (\<lambda>f. case averageBitrate f of Some b \<Rightarrow> b | None \<Rightarrow> 0)
                           (filter (\<lambda>f. truthy (averageBitrate f)) cands)
             in case filter (\<lambda>f. \<not> truthy (bitrate f)) known of
                  f # _ \<Rightarrow> Inr f
                | [] \<Rightarrow> (case known of f # _ \<Rightarrow> Inr f | [] \<Rightarrow> Inl NoSuitableFormat)))"

section \<open>Auxiliary notions\<close>

text \<open>The fields when \<^verbatim>\<open>forward\<close> has advanced and gone idle, before it looks at the
  settings.\<close>

definition idled :: "int \<Rightarrow> engine \<Rightarrow> engine" where
  "idled skip s =
     s\<lparr>queuePosition := queuePosition s + skip, positionInSeconds := 0,
       playPositionInterval := False, audioPlayer := map_option ap_stop (audioPlayer s),
       status := IDLE\<rparr>"


text \<open>The two conditions of \<^verbatim>\<open>play\<close>: it resumes the song it was playing, or it
  has to fetch a stream.\<close>

definition resumes :: "QueuedSong \<Rightarrow> engine \<Rightarrow> bool" where
  "resumes song s = (status s = PAUSED \<and> Some (url song) = map_option url (nowPlaying s))"

definition fetches :: "QueuedSong \<Rightarrow> engine \<Rightarrow> bool" where
  "fetches song s = (\<not> (resumes song s \<and> (audioPlayer s \<noteq> None \<or> \<not> isLive song)))"

text \<open>How far \<^verbatim>\<open>play\<close> and \<^verbatim>\<open>forward\<close> can move the cursor.\<close>

definition play_moves :: "engine \<Rightarrow> unit outcome \<Rightarrow> bool" where
  "play_moves s r = (queue (snd r) = queue s \<and> queuePosition s \<le> queuePosition (snd r) \<and>
      queuePosition (snd r) \<le> max (queuePosition s) (int (length (queue s))))"

definition forward_moves :: "int \<Rightarrow> engine \<Rightarrow> unit outcome \<Rightarrow> bool" where
  "forward_moves skip s r = (queue (snd r) = queue s \<and>
      (if canGoForward s skip
       then queuePosition s + skip - 1 \<le> queuePosition (snd r) \<and>
            queuePosition (snd r) \<le> int (length (queue s)) \<and>
            (\<forall>u. fst r = Inr u \<longrightarrow> queuePosition s + skip \<le> queuePosition (snd r))
       else r = (Inl NoMoreTracks, s)))"

text \<open>What is assumed of the \<^verbatim>\<open>array-shuffle\<close> package: it returns a permutation of
  its argument, whatever the world.\<close>

definition shuffle_permutes :: "(nat \<Rightarrow> world) \<Rightarrow> bool" where
  "shuffle_permutes env = (\<forall>n xs. mset (arrayShuffle (env n) xs) = mset xs)"

section \<open>Example data\<close>

definition songA :: QueuedSong where
  "songA = \<lparr>title = ''A'', artist = ''x'', url = ''https://a'', length_song = 180, offset = 0,
            playlist = None, isLive = False, thumbnailUrl = None, source = Youtube,
            addedInChannelId = ''c1'', requestedBy = ''u1''\<rparr>"

definition songB :: QueuedSong where
  "songB = \<lparr>title = ''B'', artist = ''y'', url = ''https://b'', length_song = 200, offset = 0,
            playlist = None, isLive = False, thumbnailUrl = None, source = Youtube,
            addedInChannelId = ''c1'', requestedBy = ''u1''\<rparr>"

definition songC :: QueuedSong where
  "songC = \<lparr>title = ''C'', artist = ''z'', url = ''https://c'', length_song = 90, offset = 0,
            playlist = None, isLive = False, thumbnailUrl = None, source = Youtube,
            addedInChannelId = ''c1'', requestedBy = ''u1''\<rparr>"

text \<open>A world with an empty cache, a resolver that rejects with the given status code (or
  with none), a settings row with the given wait (or no row), and a shuffle that reverses;
  and the sequence of worlds that is this one at every index.\<close>

definition world_with :: "int option \<Rightarrow> int option \<Rightarrow> world" where
  "world_with code wait =
     \<lparr>hasha = (\<lambda>u. u), getPathFor = (\<lambda>k. None), getInfo = (\<lambda>u. Inl code),
      findSettings = (\<lambda>g. wait), arrayShuffle = rev\<rparr>"

definition env_with :: "int option \<Rightarrow> int option \<Rightarrow> nat \<Rightarrow> world" where
  "env_with code wait n = world_with code wait"

text \<open>A sequence of worlds in which the first fetch meets an upstream 410 and every later
  one finds the file in the cache.\<close>

definition flaky_env :: "nat \<Rightarrow> world" where
  "flaky_env n =
     (if n = 0 then world_with (Some 410) (Some 30)
      else (world_with None (Some 30))\<lparr>getPathFor := (\<lambda>k. Some ''/cache/file'')\<rparr>)"

text \<open>An engine in the middle of song A, 42 seconds in.\<close>

definition playingA :: engine where
  "playingA =
     \<lparr>voiceConnection = Some ''v1'', status = PLAYING, guildId = ''g'',
      loopCurrentSong = False, queue = [Some songA], queuePosition = 0,
      audioPlayer = Some \<lparr>ap_status = AP_Playing,
                           ap_resource = \<lparr>ffmpegInput = ''https://a/stream'',
                                          ffmpegInputOptions = [], cacheKey = None\<rparr>\<rparr>,
      nowPlaying = Some songA, playPositionInterval = True, lastSongURL = ''https://a'',
      positionInSeconds = 42, disconnectTimer = None, timers = []\<rparr>"

text \<open>The engine in the middle of song A with B and C upcoming.\<close>

definition playingABC :: engine where
  "playingABC = playingA\<lparr>queue := [Some songA, Some songB, Some songC]\<rparr>"

text \<open>A new engine with the three songs queued.\<close>

definition queuedABC :: engine where
  "queuedABC = add songC False (add songB False (add songA False (new_engine ''g'')))"

text \<open>A new engine, connected, with A queued.\<close>

definition connectedA :: engine where
  "connectedA = connect ''v'' (add songA False (new_engine ''g''))"

text \<open>An engine that went idle at the end of its queue and was disconnected by the timer.\<close>

definition idleDisconnected :: engine where
  "idleDisconnected =
     (new_engine ''g'')\<lparr>status := IDLE, queue := [Some songA, Some songB], queuePosition := 2\<rparr>"

text \<open>A history of calls, each at its own world index.\<close>

definition session :: "(nat \<times> call) list" where
  "session = [(0, Connect ''v''), (0, Add songA False), (0, Add songB True), (0, Play),
              (5, Forward 1), (6, RemoveFromQueue 1 1), (7, Shuffle), (8, Back)]"

text \<open>Three candidates: AAC in mp4, AAC in an HLS segment, Opus in webm.\<close>

definition fmtA :: videoFormat where
  "fmtA = \<lparr>codecs = ''mp4a.40.2'', container = ''mp4'', audioSampleRate = Some ''44100'',
           format_isLive = False, audioBitrate = 128, itag = 140,
           averageBitrate = Some 128000, bitrate = Some 130000,
           format_url = ''https://cdn/140''\<rparr>"

definition fmtB :: videoFormat where
  "fmtB = \<lparr>codecs = ''mp4a.40.2'', container = ''ts'', audioSampleRate = Some ''44100'',
           format_isLive = False, audioBitrate = 96, itag = 93,
           averageBitrate = None, bitrate = None,
           format_url = ''https://cdn/93''\<rparr>"

definition fmtO :: videoFormat where
  "fmtO = \<lparr>codecs = ''opus'', container = ''webm'', audioSampleRate = Some ''48000'',
           format_isLive = False, audioBitrate = 160, itag = 251,
           averageBitrate = Some 140000, bitrate = Some 160000,
           format_url = ''https://cdn/251''\<rparr>"

text \<open>The answer of the resolver for the replay of a finished live stream: the content is
  flagged live, its candidates are not; the track queued for it; a world that resolves to
  it.\<close>

definition replayInfo :: videoInfo where
  "replayInfo = \<lparr>formats = [fmtA, fmtB], isLiveContent = True, lengthSeconds = ''5400''\<rparr>"

definition replaySong :: QueuedSong where
  "replaySong = songA\<lparr>isLive := True\<rparr>"

definition replay_world :: world where
  "replay_world = (world_with None (Some 30))\<lparr>getInfo := (\<lambda>u. Inr replayInfo)\<rparr>"

text \<open>A sequence of worlds in which the first fetch is rejected without a status code and
  every later one finds the file in the cache.\<close>

definition unfetchable_then_cached :: "nat \<Rightarrow> world" where
  "unfetchable_then_cached n =
     (if n = 0 then world_with None (Some 30)
      else (world_with None (Some 30))\<lparr>getPathFor := (\<lambda>k. Some ''/cache/file'')\<rparr>)"

text \<open>The idle, disconnected engine with the cursor back on A.\<close>

definition idleDisconnectedAtA :: engine where
  "idleDisconnectedAtA = idleDisconnected\<lparr>queuePosition := 0\<rparr>"


section \<open>Laws of the runtime arrays\<close>

lemma js_slice_from_nonneg: "0 \<le> i \<Longrightarrow> js_slice_from xs i = drop (nat i) xs"
  by (simp add: js_slice_from_def js_rel_def min_def)

lemma js_slice_zero_nonneg: "0 \<le> i \<Longrightarrow> js_slice xs 0 i = take (nat i) xs"
  by (simp add: js_slice_def js_rel_def min_def)

lemma js_splice_remove_nonneg:
  "0 \<le> i \<Longrightarrow> 0 \<le> n \<Longrightarrow>
     snd (js_splice xs i n []) = take (nat i) xs @ drop (nat i + nat n) xs"
  by (auto simp: js_splice_def js_rel_def Let_def min_def)

lemma queuedABC_simps:
  "queue queuedABC = [Some songA, Some songB, Some songC]" "queuePosition queuedABC = 0"
  by (simp_all add: queuedABC_def add_def new_engine_def songA_def songB_def songC_def)

section \<open>Status and timers\<close>



lemma forward_idle_branch:
  assumes "canGoForward s skip"
    and "js_index (queue s) (queuePosition s + skip) = None \<or> status s = PAUSED"
  shows "forward env n skip s =
           (case findSettings (env n) (guildId s) of
              None \<Rightarrow>
                (Inl SettingsNotFound,
                 (idled skip s)\<lparr>queuePosition := queuePosition s + skip - 1\<rparr>)
            | Some secs \<Rightarrow>
                (Inr (), if secs \<noteq> 0 then armDisconnect (secs * 1000) (idled skip s)
                         else idled skip s))"
  using assms
  by (auto simp: forward.simps manualForward_def getCurrent_def stopTrackingPosition_def
      idled_def Let_def split: option.splits)








section \<open>The recursion of play and forward\<close>

lemma seek_queue:
  "queue (snd (seek env n p s)) = queue s" "queuePosition (snd (seek env n p s)) = queuePosition s"
  by (auto simp: seek_def Let_def startTrackingPosition_def split: option.splits sum.splits)

lemma cancelDisconnect_queue:
  "queue (cancelDisconnect s) = queue s" "queuePosition (cancelDisconnect s) = queuePosition s"
  by (auto simp: cancelDisconnect_def split: option.splits)

lemma started_queue:
  "queue (started c st s) = queue s" "queuePosition (started c st s) = queuePosition s"
  by (auto simp: started_def Let_def startTrackingPosition_def)

lemma manualForward_Inr:
  "manualForward skip s = Inr s' \<Longrightarrow>
     canGoForward s skip \<and> queue s' = queue s \<and> queuePosition s' = queuePosition s + skip"
  by (auto simp: manualForward_def stopTrackingPosition_def split: if_splits)

lemma getCurrent_Some_bounds:
  "getCurrent s = Some song \<Longrightarrow> 0 \<le> queuePosition s \<and> queuePosition s < int (length (queue s))"
  by (auto simp: getCurrent_def js_index_def split: if_splits)

lemma play_not_connected: "voiceConnection s = None \<Longrightarrow> play env n s = (Inl NotConnected, s)"
  by (simp add: play.simps)

lemma play_queue_empty:
  "voiceConnection s \<noteq> None \<Longrightarrow> getCurrent s = None \<Longrightarrow> play env n s = (Inl QueueEmpty, s)"
  by (simp add: play.simps)

lemma play_unpause:
  assumes "voiceConnection s \<noteq> None" and "getCurrent s = Some song"
    and "resumes song (cancelDisconnect s)" and "audioPlayer (cancelDisconnect s) \<noteq> None"
  shows "play env n s =
           (Inr (), startTrackingPosition None
                      ((cancelDisconnect s)
                         \<lparr>audioPlayer := map_option ap_unpause (audioPlayer (cancelDisconnect s)),
                          status := PLAYING\<rparr>))"
  using assms by (auto simp: play.simps [of env n s] resumes_def Let_def)

lemma play_reseek:
  assumes "voiceConnection s \<noteq> None" and "getCurrent s = Some song"
    and "resumes song (cancelDisconnect s)" and "audioPlayer (cancelDisconnect s) = None"
    and "\<not> isLive song"
  shows "play env n s = seek env n (getPosition (cancelDisconnect s)) (cancelDisconnect s)"
  using assms by (auto simp: play.simps [of env n s] resumes_def Let_def)

lemma play_started:
  assumes "voiceConnection s \<noteq> None" and "getCurrent s = Some song"
    and "fetches song (cancelDisconnect s)"
    and "getStream (env n) song (Some (offset song)) (Some (length_song song + offset song)) = Inr st"
  shows "play env n s = (Inr (), started song st (cancelDisconnect s))"
  using assms by (auto simp: play.simps [of env n s] resumes_def fetches_def Let_def)

lemma play_skips:
  assumes "voiceConnection s \<noteq> None" and "getCurrent s = Some song"
    and "fetches song (cancelDisconnect s)"
    and "getStream (env n) song (Some (offset song)) (Some (length_song song + offset song)) = Inl e"
  shows "play env n s =
           (case forward env (Suc n) 1 (cancelDisconnect s) of
              (Inl e', s') \<Rightarrow> (Inl e', s')
            | (Inr u, s') \<Rightarrow>
                if e = FetchFailure (Some 410) \<and> addedInChannelId song \<noteq> []
                then (Inr (), s') else (Inl e, s'))"
  using assms by (auto simp: play.simps [of env n s] resumes_def fetches_def Let_def)

lemma play_branches:
  assumes "voiceConnection s \<noteq> None" and "getCurrent s = Some song"
  obtains (unpause) "resumes song (cancelDisconnect s)" "audioPlayer (cancelDisconnect s) \<noteq> None"
    | (reseek) "resumes song (cancelDisconnect s)" "audioPlayer (cancelDisconnect s) = None" "\<not> isLive song"
    | (started) st where "fetches song (cancelDisconnect s)"
        "getStream (env n) song (Some (offset song)) (Some (length_song song + offset song)) = Inr st"
    | (skips) e where "fetches song (cancelDisconnect s)"
        "getStream (env n) song (Some (offset song)) (Some (length_song song + offset song)) = Inl e"
proof (cases "fetches song (cancelDisconnect s)")
  case True
  then show ?thesis
    using started skips
    by (cases "getStream (env n) song (Some (offset song)) (Some (length_song song + offset song))")
      blast+
next
  case False
  then show ?thesis
    using unpause reseek by (auto simp: fetches_def)
qed

lemma play_forward_moves:
  "play_moves s (play env n s)" "forward_moves skip s' (forward env n' skip s')"
proof (induction env n s and env n' skip s' rule: play_forward.induct)
  case (1 env n s0)
  show ?case
  proof (cases "voiceConnection s0 = None")
    case True
    then show ?thesis by (simp add: play_not_connected play_moves_def)
  next
    case conn: False
    show ?thesis
    proof (cases "getCurrent s0")
      case None
      then show ?thesis using conn by (simp add: play_queue_empty play_moves_def)
    next
      case (Some song)
      note b = getCurrent_Some_bounds [OF Some]
      from conn Some show ?thesis
      proof (cases rule: play_branches [where env = env and n = n])
        case unpause
        then show ?thesis
          by (simp add: play_unpause [OF conn Some, where env = env and n = n] play_moves_def startTrackingPosition_def
              cancelDisconnect_queue)
      next
        case reseek
        then show ?thesis
          by (simp add: play_reseek [OF conn Some, where env = env and n = n] play_moves_def seek_queue cancelDisconnect_queue)
      next
        case (started st)
        then show ?thesis
          by (simp add: play_started [where env = env and n = n, OF conn Some] play_moves_def started_queue
              cancelDisconnect_queue)
      next
        case (skips e)
        let ?s = "cancelDisconnect s0"
        have ih: "forward_moves 1 ?s (forward env (Suc n) 1 ?s)"
          using "1.IH" [OF conn Some refl refl _ _ skips(2)] skips(1)
          by (auto simp: fetches_def resumes_def)
        have cg: "canGoForward ?s 1"
          using b by (simp add: canGoForward_def cancelDisconnect_queue)
        obtain r s' where f: "forward env (Suc n) 1 ?s = (r, s')"
          by (cases "forward env (Suc n) 1 ?s")
        have "snd (play env n s0) = s'"
          using f by (auto simp: play_skips [where env = env and n = n, OF conn Some skips] split: sum.splits)
        then show ?thesis
          using ih cg f by (auto simp: play_moves_def forward_moves_def cancelDisconnect_queue)
      qed
    qed
  qed
next
  case (2 env n skip s0)
  show ?case
  proof (cases "manualForward skip s0")
    case (Inl e)
    then show ?thesis
      by (auto simp: forward.simps forward_moves_def manualForward_def split: if_splits)
  next
    case (Inr s)
    note m = manualForward_Inr [OF Inr]
    show ?thesis
    proof (cases "getCurrent s \<noteq> None \<and> status s \<noteq> PAUSED")
      case True
      have ih: "play_moves s (play env n s)"
        using "2.IH" [OF Inr True] .
      obtain r s' where p: "play env n s = (r, s')" by (cases "play env n s")
      from True obtain song where "getCurrent s = Some song" by auto
      note b = getCurrent_Some_bounds [OF this]
      show ?thesis
        using Inr True m ih p b
        by (cases r) (auto simp: forward.simps [of env n skip s0] forward_moves_def play_moves_def)
    next
      case False
      then show ?thesis
        using Inr m
        by (auto simp: forward.simps [of env n skip s0] forward_moves_def Let_def
            armDisconnect_def canGoForward_def split: option.splits)
    qed
  qed
qed

section \<open>The example data evaluated\<close>

lemma ex_simps:
  "url songA = ''https://a''" "url songB = ''https://b''" "url songC = ''https://c''"
  "source songA = Youtube" "source songB = Youtube" "source songC = Youtube"
  "offset songA = 0" "offset songB = 0" "offset songC = 0"
  "isLive songA = False"
  by (simp_all add: songA_def songB_def songC_def)

lemma getStream_fails:
  "source song = Youtube \<Longrightarrow> getStream (env_with c w n) song a b = Inl (FetchFailure c)"
  by (simp add: getStream_def env_with_def world_with_def)

lemma findSettings_env_with: "findSettings (env_with c w n) g = w"
  by (simp add: env_with_def world_with_def)

lemma playingABC_simps:
  "queuePosition playingABC = 0" "queue playingABC = [Some songA, Some songB, Some songC]"
  "status playingABC = PLAYING" "voiceConnection playingABC = Some ''v1''"
  "disconnectTimer playingABC = None" "guildId playingABC = ''g''"
  by (simp_all add: playingABC_def playingA_def)

section \<open>The cursor stays in the queue, call by call\<close>

lemma shuffle_length: "shuffle_permutes env \<Longrightarrow> length (arrayShuffle (env n) xs) = length xs"
  unfolding shuffle_permutes_def by (metis size_mset)

lemma play_in_range: "cursor_in_range s \<Longrightarrow> cursor_in_range (snd (play env n s))"
  using play_forward_moves(1) [of s env n]
  by (auto simp: cursor_in_range_def play_moves_def)

lemma forward_in_range:
  "cursor_in_range s \<Longrightarrow> 1 \<le> skip \<Longrightarrow> cursor_in_range (snd (forward env n skip s))"
  using play_forward_moves(2) [of skip s env n]
  by (auto simp: cursor_in_range_def forward_moves_def split: if_splits)

lemma seek_in_range: "cursor_in_range s \<Longrightarrow> cursor_in_range (snd (seek env n p s))"
  by (simp add: cursor_in_range_def seek_queue)

lemma disconnect_queue:
  "queue (disconnect s) = queue s" "queuePosition (disconnect s) = queuePosition s"
  by (auto simp: disconnect_def pause_def stopTrackingPosition_def Let_def split: option.splits)

lemma back_in_range: "cursor_in_range s \<Longrightarrow> cursor_in_range (snd (back_song env n s))"
proof -
  assume inv: "cursor_in_range s"
  let ?s = "stopTrackingPosition (s\<lparr>queuePosition := queuePosition s - 1, positionInSeconds := 0\<rparr>)"
  show ?thesis
  proof (cases "canGoBack s")
    case True
    then have "cursor_in_range ?s"
      using inv by (simp add: cursor_in_range_def canGoBack_def stopTrackingPosition_def)
    then show ?thesis
      using True play_in_range [of ?s env n] by (simp add: back_song_def Let_def)
  next
    case False
    then show ?thesis using inv by (simp add: back_song_def)
  qed
qed

lemma js_rel_le: "js_rel xs i \<le> length xs"
  by (auto simp: js_rel_def max_def)

lemma js_splice_length:
  "length (snd (js_splice xs i n items)) =
     length xs - min (nat (max n 0)) (length xs - js_rel xs i) + length items"
proof -
  define k where "k = js_rel xs i"
  have "k \<le> length xs" unfolding k_def by (rule js_rel_le)
  then show ?thesis
    by (simp add: js_splice_def Let_def k_def [symmetric] min_def)
qed

lemma js_rel_nonneg: "0 \<le> i \<Longrightarrow> js_rel xs i = min (nat i) (length xs)"
  by (simp add: js_rel_def)

lemma removeFromQueue_in_range:
  "cursor_in_range s \<Longrightarrow> 0 \<le> i \<Longrightarrow> cursor_in_range (removeFromQueue i a s)"
  by (auto simp: cursor_in_range_def removeFromQueue_def js_splice_length js_rel_nonneg min_def)

lemma move_in_range: "cursor_in_range s \<Longrightarrow> cursor_in_range (snd (move i j s))"
proof -
  assume inv: "cursor_in_range s"
  obtain removed q1 where sp: "js_splice (queue s) (queuePosition s + i) 1 [] = (removed, q1)"
    by (cases "js_splice (queue s) (queuePosition s + i) 1 []")
  have l1: "length q1 = length (queue s) - min 1 (length (queue s) - js_rel (queue s) (queuePosition s + i))"
    using js_splice_length [of "queue s" "queuePosition s + i" 1 "[]"] sp by simp
  have "queuePosition s \<le> int (length (queue s))" using inv by (simp add: cursor_in_range_def)
  show ?thesis
  proof (cases "i > queueSize s \<or> j > queueSize s")
    case True
    then show ?thesis using inv by (simp add: move_def)
  next
    case False
    have "length (queue (snd (move i j s))) = length q1 + 1"
      using False sp by (simp add: move_def Let_def js_splice_length)
    moreover have "queuePosition (snd (move i j s)) = queuePosition s"
      using False sp by (simp add: move_def Let_def)
    ultimately show ?thesis
      using inv l1 js_rel_le [of "queue s" "queuePosition s + i"]
      by (auto simp: cursor_in_range_def min_def split: if_splits)
  qed
qed

lemma run_in_range:
  assumes "shuffle_permutes env" and "counts_forwards c" and "cursor_in_range s"
  shows "cursor_in_range (run env n c s)"
proof (cases c)
  case (Forward k)
  then show ?thesis using assms by (simp add: forward_in_range)
next
  case Shuffle
  then show ?thesis
    using assms shuffle_length [OF assms(1), of n]
    by (auto simp: shuffle_def Let_def cursor_in_range_def js_slice_zero_nonneg
        js_slice_from_nonneg)
next
  case (Add song immediate)
  then show ?thesis
    using assms
    by (auto simp: add_def Let_def cursor_in_range_def js_slice_zero_nonneg js_slice_from_nonneg)
next
  case Clear
  then show ?thesis
    by (auto simp: clear_def Let_def cursor_in_range_def split: option.splits)
next
  case RemoveCurrent
  then show ?thesis
    using assms
    by (auto simp: removeCurrent_def cursor_in_range_def js_slice_zero_nonneg js_slice_from_nonneg)
next
  case (AudioPlayerIdle b)
  then show ?thesis
    using assms by (simp add: onAudioPlayerIdle_def seek_in_range forward_in_range)
next
  case (TimerFires h)
  then show ?thesis
    using assms
    by (simp add: timerFires_def disconnectCallback_def cursor_in_range_def disconnect_queue)
qed (use assms in \<open>simp_all add: play_in_range seek_in_range back_in_range
      removeFromQueue_in_range move_in_range forwardSeek_def\<close>,
    simp_all add: cursor_in_range_def connect_def disconnect_queue pause_def
      stopTrackingPosition_def stop_def onVoiceConnectionDisconnect_def tick_def)

lemma run_all_in_range:
  "shuffle_permutes env \<Longrightarrow> list_all counts_forwards (map snd cs) \<Longrightarrow> cursor_in_range s \<Longrightarrow>
     cursor_in_range (run_all env cs s)"
proof (induction cs arbitrary: s)
  case Nil
  then show ?case by simp
next
  case (Cons a cs)
  obtain n c where a: "a = (n, c)" by (cases a)
  with Cons.prems have "cursor_in_range (run env n c s)"
    by (simp add: run_in_range)
  with Cons a show ?case by simp
qed

section \<open>Playing the next track\<close>

lemma cancelDisconnect_fields:
  "status (cancelDisconnect s) = status s" "guildId (cancelDisconnect s) = guildId s"
  "voiceConnection (cancelDisconnect s) = voiceConnection s"
  "disconnectTimer (cancelDisconnect s) = None"
  by (auto simp: cancelDisconnect_def split: option.splits)

lemma started_fields:
  "status (started c st s) = PLAYING" "nowPlaying (started c st s) = Some c"
  by (auto simp: started_def Let_def startTrackingPosition_def)

lemma forward_plays_next:
  assumes "voiceConnection s \<noteq> None" and "disconnectTimer s = None"
    and "status s \<noteq> PAUSED" and "0 \<le> queuePosition s"
    and "js_index (queue s) (queuePosition s + 1) = Some nxt"
    and "getStream (env n) nxt (Some (offset nxt)) (Some (length_song nxt + offset nxt)) = Inr st"
  shows "fst (forward env n 1 s) = Inr () \<and>
         queuePosition (snd (forward env n 1 s)) = queuePosition s + 1 \<and>
         status (snd (forward env n 1 s)) = PLAYING \<and>
         nowPlaying (snd (forward env n 1 s)) = Some nxt"
proof -
  let ?s = "stopTrackingPosition (s\<lparr>queuePosition := queuePosition s + 1, positionInSeconds := 0\<rparr>)"
  have lt: "queuePosition s + 1 < int (length (queue s))"
    using assms(5) by (auto simp: js_index_def split: if_splits)
  then have m: "manualForward 1 s = Inr ?s"
    by (simp add: manualForward_def canGoForward_def)
  have cur: "getCurrent ?s = Some nxt"
    using assms(5) by (simp add: getCurrent_def stopTrackingPosition_def)
  have conn: "voiceConnection ?s \<noteq> None" and st: "status ?s \<noteq> PAUSED"
    and c: "cancelDisconnect ?s = ?s"
    using assms(1-3) by (simp_all add: stopTrackingPosition_def cancelDisconnect_def)
  have f: "fetches nxt (cancelDisconnect ?s)"
    using st by (simp add: c fetches_def resumes_def)
  have "play env n ?s = (Inr (), started nxt st ?s)"
    using play_started [where env = env and n = n, OF conn cur f assms(6)] by (simp add: c)
  then have "forward env n 1 s = (Inr (), started nxt st ?s)"
    using m cur st by (simp add: forward.simps [of env n 1 s])
  then show ?thesis
    by (simp add: started_fields started_queue stopTrackingPosition_def)
qed

section \<open>Choosing a format\<close>

lemma find_as_filter: "find P xs = (case filter P xs of [] \<Rightarrow> None | x # _ \<Rightarrow> Some x)"
  by (induction xs) auto

lemma first_none: "(case xs of [] \<Rightarrow> Inl e | x # _ \<Rightarrow> Inr x) = Inl e \<longleftrightarrow> xs = []"
  by (cases xs) auto

lemma first_or_head_none:
  "(case filter P xs of [] \<Rightarrow> (case xs of [] \<Rightarrow> Inl e | x # _ \<Rightarrow> Inr x) | y # _ \<Rightarrow> Inr y) = Inl e
     \<longleftrightarrow> xs = []"
  by (cases xs; cases "filter P xs") auto

lemma sortDescending_empty: "sortDescending k xs = [] \<longleftrightarrow> xs = []"
  by (metis length_0_conv length_sort sortDescending_def)

lemma chooseFormat_nonempty:
  "fs \<noteq> [] \<Longrightarrow> chooseFormat fs = selectFormat_claimed (format_isLive (hd fs)) fs"
  by (cases fs)
    (auto simp: chooseFormat_def nextBestFormat_def selectFormat_claimed_def find_as_filter
      Let_def split: list.splits)

lemma parseInt_examples: "parseInt ''48000'' = Some 48000" "parseInt ''44100'' = Some 44100"
  "parseInt ''5400'' = Some 5400"
  by (simp_all add: parseInt_def is_space_def is_digit_def digits_value_def)

lemma fmt_exact: "\<not> exactFormat fmtA" "\<not> exactFormat fmtB" "exactFormat fmtO"
  by (simp_all add: exactFormat_def fmtA_def fmtB_def fmtO_def parseInt_examples)

lemma fmt_fields:
  "itag fmtA = 140" "itag fmtB = 93" "audioBitrate fmtA = 128" "audioBitrate fmtB = 96"
  "averageBitrate fmtA = Some 128000" "averageBitrate fmtB = None"
  "bitrate fmtA = Some 130000" "bitrate fmtB = None"
  "format_isLive fmtA = False" "format_url fmtA = ''https://cdn/140''"
  "format_url fmtB = ''https://cdn/93''"
  by (simp_all add: fmtA_def fmtB_def)

section \<open>Refused skips\<close>

text \<open>
  Claim C5. For every queue and skip with \<open>cursor + skip - 1 \<ge> len(queue)\<close>,
  \<^verbatim>\<open>forward(skip)\<close> raises NoMoreTracks and leaves the cursor unchanged; for every cursor
  = 0, \<^verbatim>\<open>back()\<close> raises NoPreviousTrack and leaves the state unchanged. Both checks come
  before the first assignment, so every field is as it was.
\<close>

theorem forward_back_refused:
  "(int (length (queue s)) \<le> queuePosition s + skip - 1 \<longrightarrow>
      forward env n skip s = (Inl NoMoreTracks, s)) \<and>
   (queuePosition s = 0 \<longrightarrow> back_song env m s = (Inl NoPreviousTrack, s))"
  by (simp add: forward.simps manualForward_def canGoForward_def back_song_def canGoBack_def)

theorem forward_back_refused_witness:
  "int (length (queue queuedABC)) \<le> queuePosition queuedABC + 4 - 1 \<and>
   forward (env_with None (Some 30)) 0 4 queuedABC = (Inl NoMoreTracks, queuedABC) \<and>
   queuePosition queuedABC = 0 \<and>
   back_song (env_with None (Some 30)) 0 queuedABC = (Inl NoPreviousTrack, queuedABC)"
  using forward_back_refused [of queuedABC 4 "env_with None (Some 30)" 0 0]
  by (simp add: queuedABC_def add_def new_engine_def songA_def songB_def songC_def)

section \<open>A seek beyond the end of the song\<close>

text \<open>
  Claim C1. For every connected engine with a current track, \<^verbatim>\<open>seek(p)\<close> with
  \<open>p > currentTrack.length\<close> raises SeekOutOfRange and leaves the playback state (status,
  position, audio player) unchanged. The code assigns \<^verbatim>\<open>this.status = STATUS.PAUSED\<close>
  before it checks anything: on the engine that plays song A (180 seconds), \<^verbatim>\<open>seek(181)\<close>
  raises SeekOutOfRange and leaves position and audio player as they were, but the status
  is PAUSED where it was PLAYING. The player still plays and the tick still runs, which
  is not the state \<^verbatim>\<open>pause()\<close> leaves; and when the song then ends, the listener does not
  advance the queue, since the status is not PLAYING.
\<close>

theorem seek_beyond_end_pauses:
  "status playingA = PLAYING \<and> voiceConnection playingA \<noteq> None \<and>
   getCurrent playingA = Some songA \<and> length_song songA < 181 \<and>
   seek (env_with None (Some 30)) 0 181 playingA
     = (Inl SeekOutOfRange, playingA\<lparr>status := PAUSED\<rparr>) \<and>
   status (snd (seek (env_with None (Some 30)) 0 181 playingA)) \<noteq> status playingA \<and>
   map_option ap_status (audioPlayer (snd (seek (env_with None (Some 30)) 0 181 playingA)))
     = Some AP_Playing \<and>
   playPositionInterval (snd (seek (env_with None (Some 30)) 0 181 playingA)) \<and>
   map_option ap_status (audioPlayer (snd (pause playingA))) = Some AP_Paused \<and>
   \<not> playPositionInterval (snd (pause playingA)) \<and>
   onAudioPlayerIdle (env_with None (Some 30)) 1 True
       (snd (seek (env_with None (Some 30)) 0 181 playingA))
     = (Inr (), snd (seek (env_with None (Some 30)) 0 181 playingA))"
proof -
  have s: "seek (env_with None (Some 30)) 0 181 playingA
     = (Inl SeekOutOfRange, playingA\<lparr>status := PAUSED\<rparr>)"
    by (simp add: seek_def playingA_def getCurrent_def js_index_def songA_def)
  have p: "status playingA = PLAYING" "voiceConnection playingA \<noteq> None"
    "getCurrent playingA = Some songA" "length_song songA < 181"
    "map_option ap_status (audioPlayer playingA) = Some AP_Playing"
    "playPositionInterval playingA"
    by (simp_all add: playingA_def getCurrent_def js_index_def songA_def)
  have q: "map_option ap_status (audioPlayer (snd (pause playingA))) = Some AP_Paused"
    "\<not> playPositionInterval (snd (pause playingA))"
    by (simp_all add: pause_def playingA_def stopTrackingPosition_def ap_pause_def)
  show ?thesis
    using p q by (simp add: s onAudioPlayerIdle_def)
qed

section \<open>Removing from the queue\<close>

text \<open>
  Claim C6, as stated: for every count \<open>\<ge> 1\<close> and offsetFromNext \<open>\<ge> 0\<close>,
  \<^verbatim>\<open>removeAt(offsetFromNext, count)\<close> removes exactly count tracks starting at queue index
  \<open>cursor + 1 + offsetFromNext\<close>. The code splices at \<open>cursor + index\<close>: with A current and
  B, C upcoming, \<^verbatim>\<open>removeFromQueue(0, 1)\<close> removes the current track A, not B.
\<close>

theorem removeFromQueue_zero_removes_current:
  "queuePosition queuedABC = 0 \<and> queue queuedABC = [Some songA, Some songB, Some songC] \<and>
   queue (removeFromQueue 0 1 queuedABC) = [Some songB, Some songC] \<and>
   queue (removeAt_claimed 0 1 queuedABC) = [Some songA, Some songC] \<and>
   removeFromQueue 0 1 queuedABC \<noteq> removeAt_claimed 0 1 queuedABC"
proof -
  have a: "queue (removeFromQueue 0 1 queuedABC) = [Some songB, Some songC]"
    by (simp add: removeFromQueue_def queuedABC_simps js_splice_def js_rel_def)
  have b: "queue (removeAt_claimed 0 1 queuedABC) = [Some songA, Some songC]"
    by (simp add: removeAt_claimed_def queuedABC_simps)
  have "songA \<noteq> songB" by (simp add: songA_def songB_def)
  with a b have "queue (removeFromQueue 0 1 queuedABC) \<noteq> queue (removeAt_claimed 0 1 queuedABC)"
    by simp
  then have "removeFromQueue 0 1 queuedABC \<noteq> removeAt_claimed 0 1 queuedABC" by auto
  with a b show ?thesis by (simp add: queuedABC_simps)
qed

text \<open>
  Claim C6, amended. With the cursor inside the queue, an index \<open>\<ge> 0\<close> and an amount
  \<open>\<ge> 0\<close>, \<^verbatim>\<open>removeFromQueue(index, amount)\<close> removes the tracks at the queue indices
  \<open>cursor + index, ..., cursor + index + amount - 1\<close> (those of them that exist) and leaves
  every other track, the order, the cursor and all other fields as they were; it removes
  exactly \<open>amount\<close> tracks when that many are there. The index counts from the cursor:
  index 1 is the first upcoming track, so for an index \<open>\<ge> 1\<close> the call does what the
  specification says of \<^verbatim>\<open>removeAt(index - 1, amount)\<close>.
\<close>

theorem removeFromQueue_from_cursor_plus_index:
  assumes "0 \<le> queuePosition s" and "0 \<le> index" and "0 \<le> amount"
  shows "removeFromQueue index amount s =
           s\<lparr>queue := take (nat (queuePosition s + index)) (queue s)
                        @ drop (nat (queuePosition s + index + amount)) (queue s)\<rparr> \<and>
         queuePosition (removeFromQueue index amount s) = queuePosition s \<and>
         (queuePosition s + index + amount \<le> int (length (queue s)) \<longrightarrow>
            int (length (queue (removeFromQueue index amount s)))
              = int (length (queue s)) - amount) \<and>
         (1 \<le> index \<longrightarrow> removeFromQueue index amount s = removeAt_claimed (index - 1) amount s)"
proof -
  have "nat (queuePosition s + index) + nat amount = nat (queuePosition s + index + amount)"
    using assms by (simp add: nat_add_distrib)
  then have eq: "removeFromQueue index amount s =
           s\<lparr>queue := take (nat (queuePosition s + index)) (queue s)
                        @ drop (nat (queuePosition s + index + amount)) (queue s)\<rparr>"
    using assms by (simp add: removeFromQueue_def js_splice_remove_nonneg)
  show ?thesis
    using assms by (auto simp: eq removeAt_claimed_def min_def)
qed

theorem removeFromQueue_from_cursor_plus_index_witness:
  "0 \<le> queuePosition queuedABC \<and> (0::int) \<le> 1 \<and> (0::int) \<le> 1 \<and>
   queue (removeFromQueue 1 1 queuedABC) = [Some songA, Some songC] \<and>
   queuePosition (removeFromQueue 1 1 queuedABC) = 0"
  using removeFromQueue_from_cursor_plus_index [of queuedABC 1 1]
  by (simp add: queuedABC_simps)

section \<open>Adding to the queue\<close>

text \<open>
  Claim C7, as stated: for every track and queue, \<^verbatim>\<open>add(t, {immediate: true})\<close> with \<open>t\<close>
  not part of a playlist inserts \<open>t\<close> exactly at index \<open>cursor + 1\<close>. On a new engine
  (empty queue, cursor 0) the track lands at index 0, which is the cursor itself, and
  index 1 stays empty.
\<close>

theorem add_immediate_on_empty_queue:
  "playlist songA = None \<and> queuePosition (new_engine ''g'') = 0 \<and>
   queue (add songA True (new_engine ''g'')) = [Some songA] \<and>
   js_index (queue (add songA True (new_engine ''g''))) (queuePosition (new_engine ''g'') + 1)
     \<noteq> Some songA"
  by (simp add: add_def new_engine_def songA_def js_slice_def js_slice_from_def js_rel_def
        js_index_def)

text \<open>
  Claim C7, amended. With the cursor \<open>\<ge> 0\<close>: \<^verbatim>\<open>add(t, {immediate: true})\<close> with \<open>t\<close> not
  part of a playlist puts \<open>t\<close> between the first \<open>cursor + 1\<close> tracks and the rest, without
  disturbing their order; that is index \<open>cursor + 1\<close> when there is a track at the cursor,
  and the tail of the queue when there is none (cursor = length of the queue).
  \<^verbatim>\<open>add(t)\<close> with \<open>immediate = false\<close>, or with \<open>t\<close> belonging to a playlist, appends \<open>t\<close> at
  the tail. No other field changes.
\<close>

theorem add_inserts_after_cursor:
  assumes "0 \<le> queuePosition s"
  shows "(immediate \<and> playlist t = None \<longrightarrow>
            add t immediate s =
              s\<lparr>queue := take (nat (queuePosition s + 1)) (queue s) @ [Some t]
                           @ drop (nat (queuePosition s + 1)) (queue s)\<rparr>) \<and>
         (immediate \<and> playlist t = None \<and> queuePosition s < int (length (queue s)) \<longrightarrow>
            js_index (queue (add t immediate s)) (queuePosition s + 1) = Some t) \<and>
         (immediate \<and> playlist t = None \<and> int (length (queue s)) \<le> queuePosition s \<longrightarrow>
            add t immediate s = s\<lparr>queue := queue s @ [Some t]\<rparr>) \<and>
         (\<not> immediate \<or> playlist t \<noteq> None \<longrightarrow>
            add t immediate s = s\<lparr>queue := queue s @ [Some t]\<rparr>)"
  using assms
  by (auto simp: add_def Let_def js_slice_from_nonneg js_slice_zero_nonneg js_index_def
        nth_append min_def)

theorem add_inserts_after_cursor_witness:
  "0 \<le> queuePosition queuedABC \<and> playlist songB = None \<and>
   queuePosition queuedABC < int (length (queue queuedABC)) \<and>
   queue (add songB True queuedABC) = [Some songA, Some songB, Some songB, Some songC] \<and>
   queue (add songB False queuedABC) = [Some songA, Some songB, Some songC, Some songB]"
  using add_inserts_after_cursor [of queuedABC True songB]
    add_inserts_after_cursor [of queuedABC False songB]
  by (simp add: queuedABC_simps songB_def)

section \<open>Going idle at the end of the queue\<close>




section \<open>The status of a new engine\<close>




section \<open>The cursor after a failed skip\<close>

text \<open>
  Claim C4. For every skip and queue, whenever \<^verbatim>\<open>forward(skip)\<close> or \<^verbatim>\<open>back()\<close> fails for
  any reason (overflow, playback failure of the next track, missing settings), the cursor
  is restored to exactly its value from before the call. The \<^verbatim>\<open>catch\<close> of \<^verbatim>\<open>forward\<close> is
  \<^verbatim>\<open>this.queuePosition--\<close>, whatever the skip was and wherever \<^verbatim>\<open>play\<close> has left the cursor,
  and \<^verbatim>\<open>back\<close> has no \<^verbatim>\<open>catch\<close>. So: with A, B, C queued and no settings row,
  \<^verbatim>\<open>forward(2)\<close> raises and leaves the cursor at 1, not 0; from A, with B rejected by the
  resolver and C in the cache, \<^verbatim>\<open>forward(1)\<close> raises and leaves the cursor on B while C is
  playing; and on an idle, disconnected engine \<^verbatim>\<open>back()\<close> raises NotConnected with the
  cursor moved from 2 to 1, where \<^verbatim>\<open>forward(1)\<close> on the same engine raises NotConnected
  with the cursor back at 0.
\<close>

theorem forward_rollback_misses:
  "queuePosition queuedABC = 0 \<and>
   fst (forward (env_with None None) 0 2 queuedABC) = Inl SettingsNotFound \<and>
   queuePosition (snd (forward (env_with None None) 0 2 queuedABC)) = 1 \<and>
   queuePosition playingABC = 0 \<and>
   fst (forward unfetchable_then_cached 0 1 playingABC) = Inl (FetchFailure None) \<and>
   queuePosition (snd (forward unfetchable_then_cached 0 1 playingABC)) = 1 \<and>
   getCurrent (snd (forward unfetchable_then_cached 0 1 playingABC)) = Some songB \<and>
   nowPlaying (snd (forward unfetchable_then_cached 0 1 playingABC)) = Some songC \<and>
   status (snd (forward unfetchable_then_cached 0 1 playingABC)) = PLAYING \<and>
   queuePosition idleDisconnected = 2 \<and>
   fst (back_song (env_with None (Some 30)) 0 idleDisconnected) = Inl NotConnected \<and>
   queuePosition (snd (back_song (env_with None (Some 30)) 0 idleDisconnected)) = 1 \<and>
   queuePosition idleDisconnectedAtA = 0 \<and>
   fst (forward (env_with None (Some 30)) 0 1 idleDisconnectedAtA) = Inl NotConnected \<and>
   queuePosition (snd (forward (env_with None (Some 30)) 0 1 idleDisconnectedAtA)) = 0"
proof -
  have cg: "canGoForward queuedABC 2" by (simp add: canGoForward_def queuedABC_simps)
  have st: "status queuedABC = PAUSED"
    by (simp add: queuedABC_def add_def new_engine_def)
  have a: "forward (env_with None None) 0 2 queuedABC
     = (Inl SettingsNotFound, (idled 2 queuedABC)\<lparr>queuePosition := queuePosition queuedABC + 2 - 1\<rparr>)"
    using cg st by (simp add: forward_idle_branch findSettings_env_with)
  have g0: "getStream (unfetchable_then_cached 0) songB (Some 0) (Some 200) = Inl (FetchFailure None)"
    by (simp add: unfetchable_then_cached_def getStream_def world_with_def ex_simps)
  have g1: "getStream (unfetchable_then_cached (Suc 0)) songC (Some 0) (Some 90)
      = Inr (createReadStream (unfetchable_then_cached (Suc 0)) ''/cache/file''
               (Some (trimOption ''-ss'' (Some 0) @ trimOption ''-to'' (Some 90))) False)"
    by (simp add: unfetchable_then_cached_def getStream_def world_with_def ex_simps)
  have l: "length_song songB = 200" "length_song songC = 90"
    by (simp_all add: songB_def songC_def)
  have b: "fst (forward unfetchable_then_cached 0 1 playingABC) = Inl (FetchFailure None) \<and>
   queuePosition (snd (forward unfetchable_then_cached 0 1 playingABC)) = 1 \<and>
   getCurrent (snd (forward unfetchable_then_cached 0 1 playingABC)) = Some songB \<and>
   nowPlaying (snd (forward unfetchable_then_cached 0 1 playingABC)) = Some songC \<and>
   status (snd (forward unfetchable_then_cached 0 1 playingABC)) = PLAYING"
    by (simp add: play.simps forward.simps playingABC_def playingA_def g0 g1 l ex_simps
      manualForward_def canGoForward_def stopTrackingPosition_def getCurrent_def js_index_def
      cancelDisconnect_def Let_def started_def startTrackingPosition_def)
  have c: "back_song (env_with None (Some 30)) 0 idleDisconnected
     = (Inl NotConnected,
        idleDisconnected\<lparr>queuePosition := 1, positionInSeconds := 0, playPositionInterval := False\<rparr>)"
    by (simp add: back_song_def canGoBack_def idleDisconnected_def new_engine_def
        stopTrackingPosition_def play.simps)
  have d: "fst (forward (env_with None (Some 30)) 0 1 idleDisconnectedAtA) = Inl NotConnected \<and>
   queuePosition (snd (forward (env_with None (Some 30)) 0 1 idleDisconnectedAtA)) = 0"
    by (simp add: forward.simps play.simps idleDisconnectedAtA_def idleDisconnected_def
        new_engine_def manualForward_def canGoForward_def stopTrackingPosition_def
        getCurrent_def js_index_def)
  have e: "queuePosition idleDisconnected = 2" "queuePosition idleDisconnectedAtA = 0"
    by (simp_all add: idleDisconnected_def idleDisconnectedAtA_def)
  show ?thesis
    using b d e by (simp add: a c queuedABC_simps playingABC_simps idled_def)
qed

section \<open>The invariant of the cursor\<close>

text \<open>
  Claim C3, as stated: for every queue state reachable through the public operations the
  invariant \<open>0 \<le> cursor \<le> len(queue)\<close> holds before and after each operation. No
  operation checks a lower bound: on a new engine \<^verbatim>\<open>forward(-1)\<close> passes
  \<^verbatim>\<open>canGoForward\<close>, returns normally, and leaves the cursor at \<open>-1\<close>.
\<close>

theorem negative_skip_leaves_range:
  "cursor_in_range (new_engine ''g'') \<and>
   fst (forward (env_with None (Some 30)) 0 (- 1) (new_engine ''g'')) = Inr () \<and>
   queuePosition (snd (forward (env_with None (Some 30)) 0 (- 1) (new_engine ''g''))) = - 1 \<and>
   \<not> cursor_in_range (run (env_with None (Some 30)) 0 (Forward (- 1)) (new_engine ''g''))"
proof -
  have cg: "canGoForward (new_engine ''g'') (- 1)"
    by (simp add: canGoForward_def new_engine_def)
  have "status (new_engine ''g'') = PAUSED" by (simp add: new_engine_def)
  with cg have "forward (env_with None (Some 30)) 0 (- 1) (new_engine ''g'')
      = (Inr (), armDisconnect 30000 (idled (- 1) (new_engine ''g'')))"
    by (simp add: forward_idle_branch findSettings_env_with)
  then show ?thesis
    by (simp add: cursor_in_range_def armDisconnect_def idled_def new_engine_def)
qed

text \<open>
  Claim C3, amended. A new engine satisfies \<open>0 \<le> cursor \<le> len(queue)\<close>, and every call
  (connect, disconnect, play, pause, seek, forwardSeek, forward, back, add, shuffle, clear,
  removeFromQueue, removeCurrent, move, stop, and the callbacks of the audio player, the
  voice connection, the disconnect timer and the tick) keeps it, whether the call returns
  or raises, provided \<^verbatim>\<open>forward\<close> is called with a skip \<open>\<ge> 1\<close> and \<^verbatim>\<open>removeFromQueue\<close>
  with an index \<open>\<ge> 0\<close>, and given that the shuffle returns a permutation. So the invariant
  holds in every state reached from a new engine by such calls.
\<close>

theorem cursor_stays_in_range:
  assumes "shuffle_permutes env" and "list_all counts_forwards (map snd cs)"
  shows "cursor_in_range (new_engine g) \<and>
         (cursor_in_range s \<longrightarrow> cursor_in_range (run_all env cs s))"
  using assms by (simp add: run_all_in_range) (simp add: cursor_in_range_def new_engine_def)

theorem cursor_stays_in_range_witness:
  "shuffle_permutes (env_with None (Some 30)) \<and>
   list_all counts_forwards (map snd session) \<and>
   cursor_in_range (new_engine ''g'') \<and>
   cursor_in_range (run_all (env_with None (Some 30)) session (new_engine ''g''))"
proof -
  have p: "shuffle_permutes (env_with None (Some 30))"
    by (simp add: shuffle_permutes_def env_with_def world_with_def)
  have c: "list_all counts_forwards (map snd session)"
    by (simp add: session_def)
  show ?thesis
    using cursor_stays_in_range [OF p c, of "''g''" "new_engine ''g''"] p c by simp
qed

section \<open>A stream that cannot be fetched\<close>

text \<open>
  Claim C2, as stated: for every stream-fetch failure during \<^verbatim>\<open>play()\<close>, a failure with
  upstream status 410 is swallowed after the cursor auto-advances by one, and every other
  failure also advances the cursor by one and is re-raised. The advance is a call of
  \<^verbatim>\<open>forward(1)\<close>, which can itself fail and roll back: with A the only track, a fetch of A
  that meets a 410, and no settings row for the guild, \<^verbatim>\<open>play()\<close> raises the settings
  error (the 410 is not swallowed) and the cursor is where it was.
\<close>

theorem gone_track_without_settings:
  "getStream (env_with (Some 410) None 0) songA (Some (offset songA))
     (Some (length_song songA + offset songA)) = Inl (FetchFailure (Some 410)) \<and>
   addedInChannelId songA \<noteq> [] \<and>
   getCurrent connectedA = Some songA \<and> voiceConnection connectedA \<noteq> None \<and>
   fst (play (env_with (Some 410) None) 0 connectedA) = Inl SettingsNotFound \<and>
   queuePosition (snd (play (env_with (Some 410) None) 0 connectedA)) = queuePosition connectedA"
proof -
  have c: "connectedA = (new_engine ''g'')\<lparr>voiceConnection := Some ''v'', queue := [Some songA]\<rparr>"
    by (simp add: connectedA_def connect_def add_def new_engine_def songA_def)
  have p: "play (env_with (Some 410) None) 0 connectedA
     = (Inl SettingsNotFound, connectedA\<lparr>positionInSeconds := 0, playPositionInterval := False,
          status := IDLE\<rparr>)"
    by (simp add: c new_engine_def play.simps forward.simps getStream_fails ex_simps
      manualForward_def canGoForward_def stopTrackingPosition_def getCurrent_def js_index_def
      cancelDisconnect_def Let_def findSettings_env_with)
  show ?thesis
    by (simp add: p getStream_fails ex_simps)
      (simp add: c new_engine_def getCurrent_def js_index_def songA_def)
qed

text \<open>
  Claim C2, amended. When \<^verbatim>\<open>play()\<close> has to fetch a stream for the current track and the
  fetch fails with an error \<open>e\<close>, it calls \<^verbatim>\<open>forward(1)\<close>. If that call returns, the
  cursor ends at least one beyond where it was, and \<^verbatim>\<open>play()\<close> returns normally when \<open>e\<close>
  carries status 410 and the track has a channel id, and raises \<open>e\<close> otherwise. If
  \<^verbatim>\<open>forward(1)\<close> raises, \<^verbatim>\<open>play()\<close> raises that error instead, 410 or not. The cursor
  advances by exactly one in the two plain cases: when \<^verbatim>\<open>forward(1)\<close> goes idle (the engine
  is Paused or no track follows) and the guild has a settings row, and when the engine is
  not Paused and the stream of the following track is fetched, which then plays.
\<close>

theorem play_skips_unplayable:
  assumes "voiceConnection s \<noteq> None" and "getCurrent s = Some song"
    and "fetches song (cancelDisconnect s)"
    and "getStream (env n) song (Some (offset song)) (Some (length_song song + offset song)) = Inl e"
  shows "(fst (forward env (Suc n) 1 (cancelDisconnect s)) = Inr () \<longrightarrow>
            play env n s =
              (if e = FetchFailure (Some 410) \<and> addedInChannelId song \<noteq> [] then Inr () else Inl e,
               snd (forward env (Suc n) 1 (cancelDisconnect s))) \<and>
            queuePosition s + 1 \<le> queuePosition (snd (play env n s))) \<and>
         (\<forall>e'. fst (forward env (Suc n) 1 (cancelDisconnect s)) = Inl e' \<longrightarrow>
            play env n s = (Inl e', snd (forward env (Suc n) 1 (cancelDisconnect s)))) \<and>
         (findSettings (env (Suc n)) (guildId s) \<noteq> None \<and>
          (status s = PAUSED \<or> js_index (queue s) (queuePosition s + 1) = None) \<longrightarrow>
            fst (play env n s) =
              (if e = FetchFailure (Some 410) \<and> addedInChannelId song \<noteq> [] then Inr () else Inl e) \<and>
            queuePosition (snd (play env n s)) = queuePosition s + 1 \<and>
            status (snd (play env n s)) = IDLE) \<and>
         (\<forall>nxt st. status s \<noteq> PAUSED \<and> js_index (queue s) (queuePosition s + 1) = Some nxt \<and>
            getStream (env (Suc n)) nxt (Some (offset nxt))
              (Some (length_song nxt + offset nxt)) = Inr st \<longrightarrow>
            fst (play env n s) =
              (if e = FetchFailure (Some 410) \<and> addedInChannelId song \<noteq> [] then Inr () else Inl e) \<and>
            queuePosition (snd (play env n s)) = queuePosition s + 1 \<and>
            status (snd (play env n s)) = PLAYING \<and>
            nowPlaying (snd (play env n s)) = Some nxt)"
proof -
  let ?s = "cancelDisconnect s"
  let ?f = "forward env (Suc n) 1 ?s"
  let ?r = "if e = FetchFailure (Some 410) \<and> addedInChannelId song \<noteq> [] then Inr () else Inl e"
  note b = getCurrent_Some_bounds [OF assms(2)]
  have pl: "play env n s =
      (case ?f of (Inl e', s') \<Rightarrow> (Inl e', s')
       | (Inr u, s') \<Rightarrow> if e = FetchFailure (Some 410) \<and> addedInChannelId song \<noteq> []
                         then (Inr (), s') else (Inl e, s'))"
    by (rule play_skips [where env = env and n = n, OF assms])
  have ok: "play env n s = (?r, snd ?f)" if "fst ?f = Inr ()"
    using that by (cases ?f) (simp add: pl)
  have cg: "canGoForward ?s 1"
    using b by (simp add: canGoForward_def cancelDisconnect_queue)
  have adv: "queuePosition s + 1 \<le> queuePosition (snd ?f)" if "fst ?f = Inr ()"
    using play_forward_moves(2) [of 1 ?s env "Suc n"] cg that
    by (simp add: forward_moves_def cancelDisconnect_queue)
  have one: "play env n s = (?r, snd ?f) \<and> queuePosition s + 1 \<le> queuePosition (snd (play env n s))"
    if "fst ?f = Inr ()"
    using ok [OF that] adv [OF that] by simp
  have two: "play env n s = (Inl e', snd ?f)" if "fst ?f = Inl e'" for e'
    using that by (cases ?f) (simp add: pl)
  have three: "fst (play env n s) = ?r \<and> queuePosition (snd (play env n s)) = queuePosition s + 1 \<and>
      status (snd (play env n s)) = IDLE"
    if "findSettings (env (Suc n)) (guildId s) \<noteq> None"
      "status s = PAUSED \<or> js_index (queue s) (queuePosition s + 1) = None"
  proof -
    have "js_index (queue ?s) (queuePosition ?s + 1) = None \<or> status ?s = PAUSED"
      using that(2) by (auto simp: cancelDisconnect_queue cancelDisconnect_fields)
    from forward_idle_branch [OF cg this, of env "Suc n"] that(1)
    have "fst ?f = Inr () \<and> queuePosition (snd ?f) = queuePosition s + 1 \<and> status (snd ?f) = IDLE"
      by (auto simp: cancelDisconnect_fields cancelDisconnect_queue idled_def armDisconnect_def
          split: option.splits)
    then show ?thesis using ok by simp
  qed
  have four: "fst (play env n s) = ?r \<and> queuePosition (snd (play env n s)) = queuePosition s + 1 \<and>
      status (snd (play env n s)) = PLAYING \<and> nowPlaying (snd (play env n s)) = Some nxt"
    if "status s \<noteq> PAUSED" "js_index (queue s) (queuePosition s + 1) = Some nxt"
      "getStream (env (Suc n)) nxt (Some (offset nxt)) (Some (length_song nxt + offset nxt)) = Inr st"
    for nxt st
  proof -
    have "fst ?f = Inr () \<and> queuePosition (snd ?f) = queuePosition ?s + 1 \<and>
         status (snd ?f) = PLAYING \<and> nowPlaying (snd ?f) = Some nxt"
      using assms(1) that b
      by (intro forward_plays_next [where st = st])
        (simp_all add: cancelDisconnect_fields cancelDisconnect_queue)
    then show ?thesis using ok by (simp add: cancelDisconnect_queue)
  qed
  show ?thesis
    using one two three four by blast
qed

theorem play_skips_unplayable_witness:
  "voiceConnection playingABC \<noteq> None \<and> getCurrent playingABC = Some songA \<and>
   fetches songA (cancelDisconnect playingABC) \<and>
   getStream (flaky_env 0) songA (Some (offset songA)) (Some (length_song songA + offset songA))
     = Inl (FetchFailure (Some 410)) \<and>
   status playingABC \<noteq> PAUSED \<and>
   js_index (queue playingABC) (queuePosition playingABC + 1) = Some songB \<and>
   fst (play flaky_env 0 playingABC) = Inr () \<and>
   queuePosition (snd (play flaky_env 0 playingABC)) = 1 \<and>
   status (snd (play flaky_env 0 playingABC)) = PLAYING \<and>
   nowPlaying (snd (play flaky_env 0 playingABC)) = Some songB \<and>
   voiceConnection connectedA \<noteq> None \<and> getCurrent connectedA = Some songA \<and>
   fetches songA (cancelDisconnect connectedA) \<and> status connectedA = PAUSED \<and>
   findSettings (env_with (Some 410) (Some 30) 1) (guildId connectedA) \<noteq> None \<and>
   fst (play (env_with (Some 410) (Some 30)) 0 connectedA) = Inr () \<and>
   queuePosition (snd (play (env_with (Some 410) (Some 30)) 0 connectedA)) = 1 \<and>
   status (snd (play (env_with (Some 410) (Some 30)) 0 connectedA)) = IDLE"
proof -
  have a1: "voiceConnection playingABC \<noteq> None" and a2: "getCurrent playingABC = Some songA"
    and a3: "fetches songA (cancelDisconnect playingABC)"
    and a5: "status playingABC \<noteq> PAUSED"
    and a6: "js_index (queue playingABC) (queuePosition playingABC + 1) = Some songB"
    by (simp_all add: playingABC_simps getCurrent_def js_index_def fetches_def resumes_def
        cancelDisconnect_def)
  have a4: "getStream (flaky_env 0) songA (Some (offset songA))
      (Some (length_song songA + offset songA)) = Inl (FetchFailure (Some 410))"
    by (simp add: flaky_env_def getStream_def world_with_def ex_simps)
  have a7: "getStream (flaky_env (Suc 0)) songB (Some (offset songB))
      (Some (length_song songB + offset songB))
      = Inr (createReadStream (flaky_env (Suc 0)) ''/cache/file''
               (Some (trimOption ''-ss'' (Some (offset songB))
                      @ trimOption ''-to'' (Some (length_song songB + offset songB)))) False)"
    by (simp add: flaky_env_def getStream_def world_with_def ex_simps)
  have c: "connectedA = (new_engine ''g'')\<lparr>voiceConnection := Some ''v'', queue := [Some songA]\<rparr>"
    by (simp add: connectedA_def connect_def add_def new_engine_def songA_def)
  have b1: "voiceConnection connectedA \<noteq> None" and b2: "getCurrent connectedA = Some songA"
    and b3: "fetches songA (cancelDisconnect connectedA)" and b5: "status connectedA = PAUSED"
    and b6: "queuePosition connectedA = 0"
    by (simp_all add: c new_engine_def getCurrent_def js_index_def fetches_def resumes_def
        cancelDisconnect_def)
  have b4: "getStream (env_with (Some 410) (Some 30) 0) songA (Some (offset songA))
      (Some (length_song songA + offset songA)) = Inl (FetchFailure (Some 410))"
    by (simp add: getStream_fails ex_simps)
  have ch: "addedInChannelId songA \<noteq> []" by (simp add: songA_def)
  show ?thesis
    using play_skips_unplayable [where env = flaky_env and n = 0, OF a1 a2 a3 a4]
      play_skips_unplayable [where env = "env_with (Some 410) (Some 30)" and n = 0,
        OF b1 b2 b3 b4]
      a1 a2 a3 a4 a5 a6 a7 b1 b2 b3 b5 b6 ch
    by (simp add: findSettings_env_with playingABC_simps)
qed

section \<open>The order of the format selection\<close>

text \<open>
  Claim C8, as stated: on a cache miss for StandardMedia, after the exact-match step, the
  preferred-tier step is taken "if the content is live". The code takes it if the first
  candidate's own \<^verbatim>\<open>isLive\<close> flag is set. For the replay of a finished live stream (track
  and content flagged live, candidates not) the claim selects the candidate with tag 93
  from the preferred list, and the code selects the one with the highest average bitrate.
\<close>

theorem replay_of_live_content:
  "isLive replaySong \<and> isLiveContent replayInfo \<and> source replaySong = Youtube \<and>
   getPathFor replay_world (hasha replay_world (url replaySong)) = None \<and>
   getInfo replay_world (url replaySong) = Inr replayInfo \<and>
   selectFormat_claimed (isLiveContent replayInfo) (formats replayInfo) = Inr fmtB \<and>
   selectFormat_claimed (isLive replaySong) (formats replayInfo) = Inr fmtB \<and>
   chooseFormat (formats replayInfo) = Inr fmtA \<and>
   map_sum id ffmpegInput (getStream replay_world replaySong None None) = Inr (format_url fmtA) \<and>
   format_url fmtA \<noteq> format_url fmtB"
proof -
  have a: "selectFormat_claimed True [fmtA, fmtB] = Inr fmtB"
    by (simp add: selectFormat_claimed_def fmt_exact sortDescending_def fmt_fields liveItags_def)
  have b: "chooseFormat [fmtA, fmtB] = Inr fmtA"
    by (simp add: chooseFormat_def nextBestFormat_def fmt_exact fmt_fields sortDescending_def
        truthy_def)
  have c: "getStream replay_world replaySong None None
     = Inr (createReadStream replay_world (format_url fmtA)
              (Some (reconnectOptions @ trimOption ''-ss'' None @ trimOption ''-to'' None))
              False)"
    by (simp add: getStream_def replay_world_def world_with_def replaySong_def songA_def
        replayInfo_def b)
  have d: "formats replayInfo = [fmtA, fmtB]" "isLiveContent replayInfo"
    by (simp_all add: replayInfo_def)
  have e: "isLive replaySong" "source replaySong = Youtube"
    "getPathFor replay_world (hasha replay_world (url replaySong)) = None"
    "getInfo replay_world (url replaySong) = Inr replayInfo"
    by (simp_all add: replaySong_def replay_world_def world_with_def songA_def)
  have f: "format_url fmtA \<noteq> format_url fmtB" by (simp add: fmt_fields)
  show ?thesis
    using a b d e f by (simp add: c createReadStream_def)
qed

text \<open>
  Claim C8, amended. On a cache miss for StandardMedia with at least one candidate, the
  selection follows exactly this order: first any candidate already in the
  opus/webm/48000 triple; else, if the first candidate is flagged live, the candidates
  sorted by descending bitrate and the first whose tag is in the fixed preferred list;
  else the candidates with a known average bitrate sorted by descending average bitrate
  and the first lacking a peak-bitrate tag, falling back to the first of them; the stream
  is made from the URL of the selected candidate, and the fetch fails with
  NoSuitableFormat exactly when no candidate is an exact match and, for a live first
  candidate, none has a preferred tag, or else none has a known average bitrate.
\<close>

theorem format_selection_order:
  assumes "fs \<noteq> []"
  shows "chooseFormat fs = selectFormat_claimed (format_isLive (hd fs)) fs \<and>
         (source song \<noteq> HLS \<and> getPathFor w (hasha w (url song)) = None \<and>
          getInfo w (url song) = Inr info \<and> formats info = fs \<longrightarrow>
            map_sum id ffmpegInput (getStream w song from_s to_s)
              = map_sum id format_url (selectFormat_claimed (format_isLive (hd fs)) fs)) \<and>
         (chooseFormat fs = Inl NoSuitableFormat \<longleftrightarrow>
            (\<forall>f \<in> set fs. \<not> exactFormat f) \<and>
            (if format_isLive (hd fs) then \<forall>f \<in> set fs. itag f \<notin> set liveItags
             else \<forall>f \<in> set fs. \<not> truthy (averageBitrate f)))"
proof -
  have eq: "chooseFormat fs = selectFormat_claimed (format_isLive (hd fs)) fs"
    using assms by (rule chooseFormat_nonempty)
  have gs: "map_sum id ffmpegInput (getStream w song from_s to_s)
              = map_sum id format_url (chooseFormat fs)"
    if "source song \<noteq> HLS" "getPathFor w (hasha w (url song)) = None"
       "getInfo w (url song) = Inr info" "formats info = fs"
    using that
    by (cases "chooseFormat fs") (simp_all add: getStream_def createReadStream_def Let_def)
  have none: "selectFormat_claimed live fs = Inl NoSuitableFormat \<longleftrightarrow>
            (\<forall>f \<in> set fs. \<not> exactFormat f) \<and>
            (if live then \<forall>f \<in> set fs. itag f \<notin> set liveItags
             else \<forall>f \<in> set fs. \<not> truthy (averageBitrate f))" for live
  proof (cases "filter exactFormat fs")
    case (Cons f fs')
    then have "f \<in> set (filter exactFormat fs)" by simp
    then have "\<exists>f \<in> set fs. exactFormat f" by auto
    then show ?thesis using Cons by (auto simp: selectFormat_claimed_def)
  next
    case Nil
    then have ne: "\<forall>f \<in> set fs. \<not> exactFormat f" by (simp add: filter_empty_conv)
    show ?thesis
    proof (cases live)
      case True
      have "selectFormat_claimed live fs = Inl NoSuitableFormat \<longleftrightarrow>
            filter (\<lambda>f. itag f \<in> set liveItags) (sortDescending audioBitrate fs) = []"
        using Nil True by (simp add: selectFormat_claimed_def first_none)
      then show ?thesis
        using True ne by (simp add: filter_empty_conv sortDescending_def)
    next
      case False
      have "selectFormat_claimed live fs = Inl NoSuitableFormat \<longleftrightarrow>
            sortDescending (\<lambda>f. case averageBitrate f of Some b \<Rightarrow> b | None \<Rightarrow> 0)
              (filter (\<lambda>f. truthy (averageBitrate f)) fs) = []"
        using Nil False by (simp add: selectFormat_claimed_def Let_def first_or_head_none)
      then show ?thesis
        using False ne by (simp add: sortDescending_empty filter_empty_conv)
    qed
  qed
  show ?thesis
    using eq gs none [of "format_isLive (hd fs)"] by simp
qed

theorem format_selection_order_witness:
  "[fmtA, fmtB] \<noteq> [] \<and> source replaySong \<noteq> HLS \<and>
   getPathFor replay_world (hasha replay_world (url replaySong)) = None \<and>
   getInfo replay_world (url replaySong) = Inr replayInfo \<and>
   formats replayInfo = [fmtA, fmtB] \<and>
   chooseFormat [fmtA, fmtB] = Inr fmtA \<and>
   map_sum id ffmpegInput (getStream replay_world replaySong None None) = Inr (format_url fmtA) \<and>
   [fmtA, fmtO] \<noteq> [] \<and> chooseFormat [fmtA, fmtO] = Inr fmtO \<and>
   [fmtB] \<noteq> [] \<and> chooseFormat [fmtB] = Inl NoSuitableFormat"
proof -
  have a: "selectFormat_claimed False [fmtA, fmtB] = Inr fmtA"
    by (simp add: selectFormat_claimed_def fmt_exact sortDescending_def fmt_fields truthy_def)
  have b: "selectFormat_claimed False [fmtA, fmtO] = Inr fmtO"
    by (simp add: selectFormat_claimed_def fmt_exact)
  have c: "selectFormat_claimed False [fmtB] = Inl NoSuitableFormat"
    by (simp add: selectFormat_claimed_def fmt_exact sortDescending_def fmt_fields truthy_def)
  have e: "source replaySong \<noteq> HLS"
    "getPathFor replay_world (hasha replay_world (url replaySong)) = None"
    "getInfo replay_world (url replaySong) = Inr replayInfo"
    "formats replayInfo = [fmtA, fmtB]"
    by (simp_all add: replaySong_def replay_world_def world_with_def songA_def replayInfo_def)
  have l: "format_isLive fmtA = False" "format_isLive fmtB = False"
    by (simp_all add: fmtA_def fmtB_def)
  show ?thesis
    using format_selection_order [of "[fmtA, fmtB]" replaySong replay_world replayInfo None None]
      format_selection_order [of "[fmtA, fmtO]" replaySong replay_world replayInfo None None]
      format_selection_order [of "[fmtB]" replaySong replay_world replayInfo None None]
      a b c e l
    by simp
qed

end
